theory Spec2Isabelle
  imports Complex_Main
begin

section \<open>PastaPass server: the wallet stamp engine of \<open>src/server/index.js\<close>\<close>

text \<open>
  The model follows the server variant with the Turso backend and the two-minute cooldown
  (the second program of \<open>src/server/index.js\<close>, its lines 245 to 528).

  Conventions of the embedding.
  \<^item> The token of a request is any JSON value, or absent (type \<open>json option\<close>), since
    the token check converts it with \<open>String\<close>. The identifier, name, email and phone
    of a request are JSON strings, or absent or \<open>null\<close> (type \<open>string option\<close>): the
    claims speak of identifier strings.
  \<^item> A timestamp column holds \<open>NULL\<close> or the ISO-8601 text written by
    \<open>new Date().toISOString()\<close>; the text is represented by the number of
    milliseconds it denotes, which is what \<open>Date.parse\<close> gives back for it.
  \<^item> Every reading of the clock that a request makes is an input of its own
    (record \<open>clock\<close>), since the handler reads the clock several times.
  \<^item> The two database drivers are third-party code. Both speak the SQLite dialect; the
    statements the program issues are given one SQL semantics (\<open>sql_exec\<close>), on tables
    with the constraints of the schema that each branch declares; the drivers differ in
    what their calls return and accept. Only constraint violations are modelled as
    storage errors.
  \<^item> The store carries a journal of the statements issued so far (\<open>issued\<close>), which
    makes a storage access observable.
\<close>

subsection \<open>JSON values and \<open>String\<close>\<close>

text \<open>What the handlers catch: a constraint violation of the store, or a \<open>TypeError\<close>.\<close>

datatype js_error = SqliteConstraint | TypeError

text \<open>
  A value that \<open>bodyParser.json()\<close> delivers. A number is represented by the text that
  \<open>String\<close> gives for it (\<open>123\<close> by \<open>''123''\<close>), which determines the number up to the
  sign of zero. An object is the list of its own properties.
\<close>

datatype json =
    JNull
  | JBool bool
  | JNum string
  | JStr string
  | JArr "json list"
  | JObj "(string \<times> json) list"

text \<open>
  Truthiness of a JSON value: \<open>null\<close>, \<open>false\<close>, zero and \<open>""\<close> are falsy, every array
  and object is truthy.
\<close>

fun truthy_json :: "json \<Rightarrow> bool" where
  "truthy_json JNull = False"
| "truthy_json (JBool b) = b"
| "truthy_json (JNum s) = (s \<noteq> ''0'')"
| "truthy_json (JStr s) = (s \<noteq> [])"
| "truthy_json (JArr xs) = True"
| "truthy_json (JObj kvs) = True"

text \<open>
  \<open>String(v)\<close>. An array is the \<open>String\<close> of its elements joined by commas, with
  \<open>null\<close> elements left empty. A parsed object has no callable property of its own, so
  one with an own property named \<open>toString\<close> cannot be converted (a \<open>TypeError\<close>), and
  any other is \<open>[object Object]\<close>.
\<close>

fun js_String :: "json \<Rightarrow> js_error + string"
  and js_join :: "json list \<Rightarrow> js_error + string" where
  "js_String JNull = Inr ''null''"
| "js_String (JBool b) = Inr (if b then ''true'' else ''false'')"
| "js_String (JNum s) = Inr s"
| "js_String (JStr s) = Inr s"
| "js_String (JArr xs) = js_join xs"
| "js_String (JObj kvs) =
     (if ''toString'' \<in> set (map fst kvs) then Inl TypeError else Inr ''[object Object]'')"
| "js_join [] = Inr []"
| "js_join [x] = (if x = JNull then Inr [] else js_String x)"
| "js_join (x # y # ys) =
     (case (if x = JNull then Inr [] else js_String x) of
        Inl e \<Rightarrow> Inl e
      | Inr s \<Rightarrow>
          (case js_join (y # ys) of
             Inl e \<Rightarrow> Inl e
           | Inr t \<Rightarrow> Inr (s @ '','' @ t)))"

subsection \<open>Configuration (lines 264 to 273)\<close>

record config =
  env_QR_SECRET :: "string option"
  env_TURSO_DATABASE_URL :: "string option"

text \<open>JavaScript truthiness of a string-or-null value: \<open>null\<close> and \<open>""\<close> are falsy.\<close>

definition truthy :: "string option \<Rightarrow> bool" where
  "truthy v = (case v of None \<Rightarrow> False | Some s \<Rightarrow> s \<noteq> [])"

text \<open>\<open>a || b\<close> on such values.\<close>

definition js_or :: "string option \<Rightarrow> string option \<Rightarrow> string option" where
  "js_or a b = (if truthy a then a else b)"

text \<open>\<open>const QR_SECRET = process.env.QR_SECRET || "PASTA123"\<close>\<close>

definition QR_SECRET :: "config \<Rightarrow> string" where
  "QR_SECRET cfg =
     (case js_or (env_QR_SECRET cfg) (Some ''PASTA123'') of
        Some s \<Rightarrow> s
      | None \<Rightarrow> ''PASTA123'')"

text \<open>\<open>const useTurso = !!process.env.TURSO_DATABASE_URL\<close>\<close>

definition useTurso :: "config \<Rightarrow> bool" where
  "useTurso cfg = truthy (env_TURSO_DATABASE_URL cfg)"

text \<open>\<open>const COOLDOWN_MS = 2 * 60 * 1000\<close>\<close>

definition COOLDOWN_MS :: int where
  "COOLDOWN_MS = 2 * 60 * 1000"

text \<open>
  \<open>function isValidStaticToken(t) { return t && String(t) === String(QR_SECRET); }\<close>
  A falsy token is returned as it is, and the caller reads it as false; \<open>QR_SECRET\<close> is
  a string, on which \<open>String\<close> is the identity; the conversion of the token may throw.
\<close>

definition isValidStaticToken :: "config \<Rightarrow> json option \<Rightarrow> js_error + bool" where
  "isValidStaticToken cfg t =
     (case t of
        None \<Rightarrow> Inr False
      | Some v \<Rightarrow>
          if \<not> truthy_json v then Inr False
          else (case js_String v of
                  Inl e \<Rightarrow> Inl e
                | Inr s \<Rightarrow> Inr (s = QR_SECRET cfg)))"

subsection \<open>Tables (the schema of lines 314 to 363)\<close>

text \<open>The columns \<open>id, name, email, phone\<close> that the program selects from \<open>customers\<close>.\<close>

record customer =
  cust_id :: string
  cust_name :: "string option"
  cust_email :: "string option"
  cust_phone :: "string option"

text \<open>A stored row of \<open>customers\<close> has \<open>created_at\<close> as well.\<close>

record customers_row = customer +
  created_at :: int

record wallet =
  customer_id :: string
  stamps :: int
  last_redeemed_at :: "int option"
  last_stamped_at :: "int option"

text \<open>
  The statements of the data helpers, each with its bound arguments in the order of
  the helper's argument array.
\<close>

datatype stmt =
    SelectCustomer string string
  | InsertCustomer string "string option" "string option" "string option" int
  | SelectWallet string
  | InsertWallet string
  | UpdateWallet int "int option" "int option" string

record db =
  customers :: "customers_row list"
  wallets :: "wallet list"
  issued :: "stmt list"

text \<open>The store right after \<open>initSchema\<close> on a new database: both tables exist and are empty.\<close>

definition fresh_db :: db where
  "fresh_db = \<lparr>customers = [], wallets = [], issued = []\<rparr>"

datatype row = CustomerRow customer | WalletRow wallet

text \<open>
  The constraints a schema declares on the two tables: \<open>id TEXT PRIMARY KEY\<close>,
  \<open>email TEXT UNIQUE\<close> and \<open>phone TEXT UNIQUE\<close> on \<open>customers\<close>;
  \<open>customer_id TEXT PRIMARY KEY\<close> and
  \<open>FOREIGN KEY(customer_id) REFERENCES customers(id)\<close> on \<open>wallets\<close>.
\<close>

record schema =
  customers_id_primary :: bool
  customers_email_unique :: bool
  customers_phone_unique :: bool
  wallets_customer_id_primary :: bool
  wallets_customer_id_references :: bool

text \<open>The tables that \<open>initSchema\<close> of the Turso branch creates (lines 314 to 332).\<close>

definition turso_schema :: schema where
  "turso_schema =
     \<lparr>customers_id_primary = True, customers_email_unique = True,
      customers_phone_unique = True, wallets_customer_id_primary = True,
      wallets_customer_id_references = True\<rparr>"

text \<open>The tables that \<open>initSchema\<close> of the SQLite branch creates (lines 346 to 362).\<close>

definition sqlite_schema :: schema where
  "sqlite_schema =
     \<lparr>customers_id_primary = True, customers_email_unique = True,
      customers_phone_unique = True, wallets_customer_id_primary = True,
      wallets_customer_id_references = True\<rparr>"

subsection \<open>SQL semantics of the statements\<close>

text \<open>
  \<open>SELECT id, name, email, phone FROM customers WHERE email = ? OR phone = ? LIMIT 1\<close>:
  the first matching row in insertion order.
\<close>

definition select_customer :: "string \<Rightarrow> string \<Rightarrow> customers_row list \<Rightarrow> customer option" where
  "select_customer a b rows =
     map_option customer.truncate
       (find (\<lambda>r. cust_email r = Some a \<or> cust_phone r = Some b) rows)"

text \<open>\<open>SELECT ... FROM wallets WHERE customer_id = ? LIMIT 1\<close>\<close>

definition select_wallet :: "string \<Rightarrow> wallet list \<Rightarrow> wallet option" where
  "select_wallet c rows = find (\<lambda>w. customer_id w = c) rows"

text \<open>
  An insert into \<open>customers\<close> is refused when the id is taken and is the primary key,
  or a non-null email or phone is taken and the column is unique; \<open>NULL\<close>s never
  collide.
\<close>

definition customer_conflict ::
  "schema \<Rightarrow> string \<Rightarrow> string option \<Rightarrow> string option \<Rightarrow> customers_row list \<Rightarrow> bool" where
  "customer_conflict sch i e p rows =
     list_ex (\<lambda>r. (customers_id_primary sch \<and> cust_id r = i)
                \<or> (customers_email_unique sch \<and> e \<noteq> None \<and> cust_email r = e)
                \<or> (customers_phone_unique sch \<and> p \<noteq> None \<and> cust_phone r = p)) rows"

definition update_row :: "int \<Rightarrow> int option \<Rightarrow> int option \<Rightarrow> string \<Rightarrow> wallet \<Rightarrow> wallet" where
  "update_row s lr ls c w =
     (if customer_id w = c
      then w\<lparr>stamps := s, last_redeemed_at := lr, last_stamped_at := ls\<rparr>
      else w)"

text \<open>
  One statement on a store whose tables were created with the schema \<open>sch\<close>: the rows
  it returns and the number of rows it changed, or a constraint error. The statement is
  journalled either way. An insert into \<open>wallets\<close> is refused when the customer
  already has a wallet (the primary key) or when there is no such customer (the foreign
  key). No statement of the program deletes a row or changes an id.
\<close>

fun sql_exec :: "schema \<Rightarrow> stmt \<Rightarrow> db \<Rightarrow> (js_error + row list \<times> nat) \<times> db" where
  "sql_exec sch (SelectCustomer a b) d =
     (Inr (case select_customer a b (customers d) of
             None \<Rightarrow> []
           | Some c \<Rightarrow> [CustomerRow c], 0),
      d\<lparr>issued := issued d @ [SelectCustomer a b]\<rparr>)"
| "sql_exec sch (InsertCustomer i n e p t) d =
     (if customer_conflict sch i e p (customers d)
      then (Inl SqliteConstraint, d\<lparr>issued := issued d @ [InsertCustomer i n e p t]\<rparr>)
      else (Inr ([], 1),
            d\<lparr>customers := customers d @
                 [\<lparr>cust_id = i, cust_name = n, cust_email = e, cust_phone = p, created_at = t\<rparr>],
              issued := issued d @ [InsertCustomer i n e p t]\<rparr>))"
| "sql_exec sch (SelectWallet c) d =
     (Inr (case select_wallet c (wallets d) of
             None \<Rightarrow> []
           | Some w \<Rightarrow> [WalletRow w], 0),
      d\<lparr>issued := issued d @ [SelectWallet c]\<rparr>)"
| "sql_exec sch (InsertWallet c) d =
     (if (wallets_customer_id_primary sch \<and> list_ex (\<lambda>w. customer_id w = c) (wallets d)) \<or>
         (wallets_customer_id_references sch \<and>
          \<not> list_ex (\<lambda>r. cust_id r = c) (customers d))
      then (Inl SqliteConstraint, d\<lparr>issued := issued d @ [InsertWallet c]\<rparr>)
      else (Inr ([], 1),
            d\<lparr>wallets := wallets d @
                 [\<lparr>customer_id = c, stamps = 0, last_redeemed_at = None, last_stamped_at = None\<rparr>],
              issued := issued d @ [InsertWallet c]\<rparr>))"
| "sql_exec sch (UpdateWallet s lr ls c) d =
     (Inr ([], length (filter (\<lambda>w. customer_id w = c) (wallets d))),
      d\<lparr>wallets := map (update_row s lr ls c) (wallets d),
        issued := issued d @ [UpdateWallet s lr ls c]\<rparr>)"

subsection \<open>The two backends (lines 299 to 364)\<close>

text \<open>
  What \<open>turso.execute\<close> resolves to, and what \<open>run\<close> of better-sqlite3 returns.
  \<open>execute\<close> takes any statement and resolves to a result set, empty for a statement
  that returns no data. Of better-sqlite3, \<open>run\<close> returns the information on the
  changes made, while \<open>get\<close> and \<open>all\<close> refuse a statement that returns no data with a
  \<open>TypeError\<close>, before executing it.
\<close>

fun returns_data :: "stmt \<Rightarrow> bool" where
  "returns_data (SelectCustomer a b) = True"
| "returns_data (SelectWallet c) = True"
| "returns_data (InsertCustomer i n e p t) = False"
| "returns_data (InsertWallet c) = False"
| "returns_data (UpdateWallet s lr ls c) = False"

record result_set =
  rows :: "row list"
  rowsAffected :: nat

datatype run_result = Undefined | RunInfo nat

definition turso_execute :: "stmt \<Rightarrow> db \<Rightarrow> (js_error + result_set) \<times> db" where
  "turso_execute s d =
     (case sql_exec turso_schema s d of
        (Inl e, d') \<Rightarrow> (Inl e, d')
      | (Inr (rs, n), d') \<Rightarrow> (Inr \<lparr>rows = rs, rowsAffected = n\<rparr>, d'))"

definition sqlite_run :: "stmt \<Rightarrow> db \<Rightarrow> (js_error + run_result) \<times> db" where
  "sqlite_run s d =
     (case sql_exec sqlite_schema s d of
        (Inl e, d') \<Rightarrow> (Inl e, d')
      | (Inr (rs, n), d') \<Rightarrow> (Inr (RunInfo n), d'))"


definition sqlite_get :: "stmt \<Rightarrow> db \<Rightarrow> (js_error + row option) \<times> db" where
  "sqlite_get s d =
     (if \<not> returns_data s then (Inl TypeError, d)
      else (case sql_exec sqlite_schema s d of
              (Inl e, d') \<Rightarrow> (Inl e, d')
            | (Inr (rs, n), d') \<Rightarrow>
                (Inr (case rs of [] \<Rightarrow> None | r # _ \<Rightarrow> Some r), d')))"

text \<open>
  \<open>dbRun\<close>: the Turso variant is \<open>async (sql, args) => { await turso.execute(...); }\<close>
  and resolves to \<open>undefined\<close>; the SQLite variant returns what \<open>run\<close> returns.
\<close>

definition dbRun :: "bool \<Rightarrow> stmt \<Rightarrow> db \<Rightarrow> (js_error + run_result) \<times> db" where
  "dbRun turso s d =
     (if turso
      then (case turso_execute s d of
              (Inl e, d') \<Rightarrow> (Inl e, d')
            | (Inr r, d') \<Rightarrow> (Inr Undefined, d'))
      else sqlite_run s d)"

text \<open>\<open>dbGetOne\<close>: \<open>r.rows?.[0] || null\<close>, and \<open>sqlite.prepare(sql).get(args) || null\<close>.\<close>

definition dbGetOne :: "bool \<Rightarrow> stmt \<Rightarrow> db \<Rightarrow> (js_error + row option) \<times> db" where
  "dbGetOne turso s d =
     (if turso
      then (case turso_execute s d of
              (Inl e, d') \<Rightarrow> (Inl e, d')
            | (Inr r, d') \<Rightarrow> (Inr (case rows r of [] \<Rightarrow> None | x # _ \<Rightarrow> Some x), d'))
      else sqlite_get s d)"


subsection \<open>Data helpers (lines 366 to 406)\<close>

text \<open>
  A helper returns the row object it was given; the handlers read the columns of a
  customer or of a wallet from it. A row of the other table has none of them.
\<close>

definition getCustomerByIdentifier ::
  "bool \<Rightarrow> string \<Rightarrow> db \<Rightarrow> (js_error + customer option) \<times> db" where
  "getCustomerByIdentifier turso identifier d =
     (case dbGetOne turso (SelectCustomer identifier identifier) d of
        (Inl e, d') \<Rightarrow> (Inl e, d')
      | (Inr (Some (CustomerRow c)), d') \<Rightarrow> (Inr (Some c), d')
      | (Inr _, d') \<Rightarrow> (Inr None, d'))"

definition createCustomer ::
  "bool \<Rightarrow> int \<Rightarrow> customer \<Rightarrow> db \<Rightarrow> (js_error + unit) \<times> db" where
  "createCustomer turso createdAt c d =
     (case dbRun turso
             (InsertCustomer (cust_id c) (cust_name c) (cust_email c) (cust_phone c) createdAt) d of
        (Inl e, d') \<Rightarrow> (Inl e, d')
      | (Inr _, d') \<Rightarrow> (Inr (), d'))"

definition getWallet :: "bool \<Rightarrow> string \<Rightarrow> db \<Rightarrow> (js_error + wallet option) \<times> db" where
  "getWallet turso customerId d =
     (case dbGetOne turso (SelectWallet customerId) d of
        (Inl e, d') \<Rightarrow> (Inl e, d')
      | (Inr (Some (WalletRow w)), d') \<Rightarrow> (Inr (Some w), d')
      | (Inr _, d') \<Rightarrow> (Inr None, d'))"

definition createWallet :: "bool \<Rightarrow> string \<Rightarrow> db \<Rightarrow> (js_error + unit) \<times> db" where
  "createWallet turso customerId d =
     (case dbRun turso (InsertWallet customerId) d of
        (Inl e, d') \<Rightarrow> (Inl e, d')
      | (Inr _, d') \<Rightarrow> (Inr (), d'))"

text \<open>\<open>lastRedeemedAt || null\<close> and \<open>lastStampedAt || null\<close>: an ISO text is never empty.\<close>

definition updateWallet ::
  "bool \<Rightarrow> string \<Rightarrow> int \<Rightarrow> int option \<Rightarrow> int option \<Rightarrow> db \<Rightarrow> (js_error + unit) \<times> db" where
  "updateWallet turso customerId stamps' lastRedeemedAt lastStampedAt d =
     (case dbRun turso (UpdateWallet stamps' lastRedeemedAt lastStampedAt customerId) d of
        (Inl e, d') \<Rightarrow> (Inl e, d')
      | (Inr _, d') \<Rightarrow> (Inr (), d'))"

subsection \<open>Requests, clock readings and responses\<close>

record signup_req =
  req_name :: "string option"
  req_email :: "string option"
  req_phone :: "string option"

record stamps_req =
  req_identifier :: "string option"
  req_token :: "json option"

text \<open>
  The readings of the clock one request takes, in milliseconds since the epoch:
  \<open>new Date()\<close> in \<open>createCustomer\<close>, \<open>Date.now()\<close> of the cooldown check, and the
  \<open>new Date()\<close> of \<open>lastRedeemedAt\<close> and of \<open>lastStampedAt\<close>.
\<close>

record clock =
  created_now :: int
  Date_now :: int
  redeemed_now :: int
  stamped_now :: int

record signup_body =
  su_customer :: customer
  su_stamps :: int

record cooldown_body =
  cd_customerId :: string
  cd_stamps :: int
  cd_cooldown :: bool
  cd_cooldownMinutes :: int
  cd_secondsLeft :: int

record stamp_body =
  st_customerId :: string
  st_stamps :: int
  st_redeemed :: bool
  st_rewardMessage :: "string option"

text \<open>\<open>res.status(n).json({ error: msg })\<close>, and the three bodies sent with status 200.\<close>

datatype response =
    HttpError nat string
  | SignupJson signup_body
  | CooldownJson cooldown_body
  | StampJson stamp_body

text \<open>The reward text of line 490, as its UTF-8 bytes.\<close>

definition rewardText :: string where
  "rewardText =
     [CHR 0xF0, CHR 0x9F, CHR 0x8E, CHR 0x89] @ '' Congratulations '' @
     [CHR 0xE2, CHR 0x80, CHR 0x94] @ '' you'' @ [CHR 0xE2, CHR 0x80, CHR 0x99] @
     ''ve earned a FREE pasta for being a loyal customer!''"

text \<open>\<open>Math.ceil(a / b)\<close> for a positive divisor, on integers.\<close>

definition ceil_div :: "int \<Rightarrow> int \<Rightarrow> int" where
  "ceil_div a b = - ((- a) div b)"

subsection \<open>The wallet of a resolved customer (lines 426 to 430, and 461 to 465)\<close>

text \<open>
  \<open>let wallet = await getWallet(customer.id); if (!wallet) { await createWallet(...);
  wallet = { customer_id, stamps: 0, last_redeemed_at: null, last_stamped_at: null }; }\<close>
\<close>

definition ensure_wallet :: "bool \<Rightarrow> customer \<Rightarrow> db \<Rightarrow> (js_error + wallet) \<times> db" where
  "ensure_wallet turso c d =
     (case getWallet turso (cust_id c) d of
        (Inl e, d1) \<Rightarrow> (Inl e, d1)
      | (Inr (Some w), d1) \<Rightarrow> (Inr w, d1)
      | (Inr None, d1) \<Rightarrow>
          (case createWallet turso (cust_id c) d1 of
             (Inl e, d2) \<Rightarrow> (Inl e, d2)
           | (Inr _, d2) \<Rightarrow>
               (Inr \<lparr>customer_id = cust_id c, stamps = 0,
                     last_redeemed_at = None, last_stamped_at = None\<rparr>, d2)))"

subsection \<open>Signup (lines 413 to 440)\<close>

text \<open>
  Lines 419 to 424: look the customer up, create it when absent and look it up again.
  \<open>Inr None\<close> is a lookup that found nothing after the insert; \<open>customer.id\<close> then
  throws a \<open>TypeError\<close> at line 426.
\<close>

definition signup_customer ::
  "bool \<Rightarrow> clock \<Rightarrow> signup_req \<Rightarrow> string \<Rightarrow> db \<Rightarrow> (js_error + customer) \<times> db" where
  "signup_customer turso clk req identifier d =
     (case getCustomerByIdentifier turso identifier d of
        (Inl e, d1) \<Rightarrow> (Inl e, d1)
      | (Inr (Some c), d1) \<Rightarrow> (Inr c, d1)
      | (Inr None, d1) \<Rightarrow>
          (case createCustomer turso (created_now clk)
                  \<lparr>cust_id = identifier, cust_name = req_name req,
                   cust_email = js_or (req_email req) None,
                   cust_phone = js_or (req_phone req) None\<rparr> d1 of
             (Inl e, d2) \<Rightarrow> (Inl e, d2)
           | (Inr _, d2) \<Rightarrow>
               (case getCustomerByIdentifier turso identifier d2 of
                  (Inl e, d3) \<Rightarrow> (Inl e, d3)
                | (Inr (Some c), d3) \<Rightarrow> (Inr c, d3)
                | (Inr None, d3) \<Rightarrow> (Inl TypeError, d3))))"

text \<open>\<open>wallet.stamps || 0\<close> on a number is the number.\<close>

definition signup :: "config \<Rightarrow> clock \<Rightarrow> signup_req \<Rightarrow> db \<Rightarrow> response \<times> db" where
  "signup cfg clk req d =
     (case js_or (req_email req) (req_phone req) of
        None \<Rightarrow> (HttpError 400 ''Missing email or phone'', d)
      | Some identifier \<Rightarrow>
          if identifier = [] then (HttpError 400 ''Missing email or phone'', d)
          else
            (case signup_customer (useTurso cfg) clk req identifier d of
               (Inl e, d1) \<Rightarrow> (HttpError 500 ''Signup failed'', d1)
             | (Inr c, d1) \<Rightarrow>
                 (case ensure_wallet (useTurso cfg) c d1 of
                    (Inl e, d2) \<Rightarrow> (HttpError 500 ''Signup failed'', d2)
                  | (Inr w, d2) \<Rightarrow>
                      (SignupJson \<lparr>su_customer = c, su_stamps = stamps w\<rparr>, d2))))"

subsection \<open>Stamp-add (lines 443 to 520)\<close>

text \<open>Lines 449 to 459; \<open>identifier.includes("@")\<close> decides the column.\<close>

definition stamps_add_customer ::
  "bool \<Rightarrow> clock \<Rightarrow> string \<Rightarrow> db \<Rightarrow> (js_error + customer) \<times> db" where
  "stamps_add_customer turso clk identifier d =
     (case getCustomerByIdentifier turso identifier d of
        (Inl e, d1) \<Rightarrow> (Inl e, d1)
      | (Inr (Some c), d1) \<Rightarrow> (Inr c, d1)
      | (Inr None, d1) \<Rightarrow>
          (case createCustomer turso (created_now clk)
                  \<lparr>cust_id = identifier, cust_name = None,
                   cust_email = (if CHR ''@'' \<in> set identifier then Some identifier else None),
                   cust_phone = (if CHR ''@'' \<in> set identifier then None else Some identifier)\<rparr>
                  d1 of
             (Inl e, d2) \<Rightarrow> (Inl e, d2)
           | (Inr _, d2) \<Rightarrow>
               (case getCustomerByIdentifier turso identifier d2 of
                  (Inl e, d3) \<Rightarrow> (Inl e, d3)
                | (Inr (Some c), d3) \<Rightarrow> (Inr c, d3)
                | (Inr None, d3) \<Rightarrow> (Inl TypeError, d3))))"

text \<open>
  Lines 467 to 515: the cooldown check, then the award or the redemption.
  \<open>Math.round(COOLDOWN_MS / 60000)\<close> is 2.
\<close>

definition stamps_add_award ::
  "bool \<Rightarrow> clock \<Rightarrow> customer \<Rightarrow> wallet \<Rightarrow> db \<Rightarrow> response \<times> db" where
  "stamps_add_award turso clk c w d =
     (let now = Date_now clk;
          last = (case last_stamped_at w of Some t \<Rightarrow> t | None \<Rightarrow> 0);
          diff = now - last
      in if diff < COOLDOWN_MS then
           (CooldownJson \<lparr>cd_customerId = cust_id c, cd_stamps = stamps w, cd_cooldown = True,
                          cd_cooldownMinutes = COOLDOWN_MS div 60000,
                          cd_secondsLeft = ceil_div (COOLDOWN_MS - diff) 1000\<rparr>, d)
         else if stamps w < 10 then
           (case updateWallet turso (cust_id c) (stamps w + 1) (last_redeemed_at w)
                   (Some (stamped_now clk)) d of
              (Inl e, d1) \<Rightarrow> (HttpError 500 ''Stamp add failed'', d1)
            | (Inr _, d1) \<Rightarrow>
                (StampJson \<lparr>st_customerId = cust_id c, st_stamps = stamps w + 1,
                            st_redeemed = False,
                            st_rewardMessage =
                              (if stamps w + 1 = 10 then Some rewardText else None)\<rparr>, d1))
         else
           (case updateWallet turso (cust_id c) 0 (Some (redeemed_now clk))
                   (Some (stamped_now clk)) d of
              (Inl e, d1) \<Rightarrow> (HttpError 500 ''Stamp add failed'', d1)
            | (Inr _, d1) \<Rightarrow>
                (StampJson \<lparr>st_customerId = cust_id c, st_stamps = 0, st_redeemed = True,
                            st_rewardMessage = None\<rparr>, d1)))"

text \<open>
  The token check of line 446 is inside the \<open>try\<close> block: when it throws, the handler
  answers with status 500.
\<close>

definition stamps_add :: "config \<Rightarrow> clock \<Rightarrow> stamps_req \<Rightarrow> db \<Rightarrow> response \<times> db" where
  "stamps_add cfg clk req d =
     (case isValidStaticToken cfg (req_token req) of
        Inl e \<Rightarrow> (HttpError 500 ''Stamp add failed'', d)
      | Inr False \<Rightarrow> (HttpError 401 ''Unauthorized: invalid token'', d)
      | Inr True \<Rightarrow>
        (case req_identifier req of
           None \<Rightarrow> (HttpError 400 ''Missing identifier (email or phone)'', d)
         | Some identifier \<Rightarrow>
             if identifier = [] then (HttpError 400 ''Missing identifier (email or phone)'', d)
             else
               (case stamps_add_customer (useTurso cfg) clk identifier d of
                  (Inl e, d1) \<Rightarrow> (HttpError 500 ''Stamp add failed'', d1)
                | (Inr c, d1) \<Rightarrow>
                    (case ensure_wallet (useTurso cfg) c d1 of
                       (Inl e, d2) \<Rightarrow> (HttpError 500 ''Stamp add failed'', d2)
                     | (Inr w, d2) \<Rightarrow> stamps_add_award (useTurso cfg) clk c w d2))))"

subsection \<open>Sequences of calls of the public API\<close>

text \<open>Requests handled one after the other, none overlapping another.\<close>

datatype api_call = Signup clock signup_req | StampsAdd clock stamps_req

fun api_step :: "config \<Rightarrow> api_call \<Rightarrow> db \<Rightarrow> response \<times> db" where
  "api_step cfg (Signup clk req) d = signup cfg clk req d"
| "api_step cfg (StampsAdd clk req) d = stamps_add cfg clk req d"

fun run :: "config \<Rightarrow> api_call list \<Rightarrow> db \<Rightarrow> response list \<times> db" where
  "run cfg [] d = ([], d)"
| "run cfg (c # cs) d =
     (case api_step cfg c d of
        (r, d1) \<Rightarrow> (case run cfg cs d1 of (rs, d2) \<Rightarrow> (r # rs, d2)))"

subsection \<open>Well-formed stores\<close>

text \<open>
  Two facts that hold of every store the API builds. The id of a customer is the
  identifier it was created from, which is also its email or its phone; and every wallet
  belongs to a customer (the foreign key of \<open>wallets\<close>).
\<close>

definition id_is_identifier :: "customers_row \<Rightarrow> bool" where
  "id_is_identifier r = (cust_email r = Some (cust_id r) \<or> cust_phone r = Some (cust_id r))"

definition db_wf :: "db \<Rightarrow> bool" where
  "db_wf d =
     (list_all id_is_identifier (customers d) \<and>
      list_all (\<lambda>w. list_ex (\<lambda>r. cust_id r = customer_id w) (customers d)) (wallets d))"

text \<open>The range of the stamp counter that the handlers maintain.\<close>

definition stamps_in_range :: "wallet \<Rightarrow> bool" where
  "stamps_in_range w = (0 \<le> stamps w \<and> stamps w \<le> 10)"

text \<open>The time the cooldown is measured from: \<open>Date.parse\<close> of the column, or \<open>0\<close>.\<close>

definition last_ms :: "wallet \<Rightarrow> int" where
  "last_ms w = (case last_stamped_at w of Some t \<Rightarrow> t | None \<Rightarrow> 0)"

subsection \<open>Calls of the storage surface, in sequence\<close>






subsection \<open>Concrete inputs\<close>

text \<open>
  The process started with neither \<open>QR_SECRET\<close> nor \<open>TURSO_DATABASE_URL\<close> set (so the
  secret is \<open>PASTA123\<close> and the store is the SQLite file), and the same with a Turso URL.
\<close>

definition cfg_sqlite :: config where
  "cfg_sqlite = \<lparr>env_QR_SECRET = None, env_TURSO_DATABASE_URL = None\<rparr>"

definition cfg_turso :: config where
  "cfg_turso = \<lparr>env_QR_SECRET = None, env_TURSO_DATABASE_URL = Some ''libsql://pasta''\<rparr>"

text \<open>A request handled within one millisecond \<open>t\<close>: every reading of the clock is \<open>t\<close>.\<close>

definition clock_at :: "int \<Rightarrow> clock" where
  "clock_at t = \<lparr>created_now = t, Date_now = t, redeemed_now = t, stamped_now = t\<rparr>"

definition signup_ax :: signup_req where
  "signup_ax = \<lparr>req_name = None, req_email = Some ''a@x.com'', req_phone = None\<rparr>"

definition add_ax :: stamps_req where
  "add_ax = \<lparr>req_identifier = Some ''a@x.com'', req_token = Some (JStr ''PASTA123'')\<rparr>"

definition add_ax_bad :: stamps_req where
  "add_ax_bad = \<lparr>req_identifier = Some ''a@x.com'', req_token = Some (JStr ''WRONG'')\<rparr>"

text \<open>The same request with the token \<open>["PASTA123"]\<close>, an array and not the secret.\<close>

definition add_ax_array :: stamps_req where
  "add_ax_array =
     \<lparr>req_identifier = Some ''a@x.com'', req_token = Some (JArr [JStr ''PASTA123''])\<rparr>"

text \<open>The customer and the wallet that \<open>signup_ax\<close> creates.\<close>

definition customer_ax :: customer where
  "customer_ax =
     \<lparr>cust_id = ''a@x.com'', cust_name = None, cust_email = Some ''a@x.com'', cust_phone = None\<rparr>"

definition wallet_ax :: "int \<Rightarrow> int option \<Rightarrow> int option \<Rightarrow> wallet" where
  "wallet_ax n lr ls =
     \<lparr>customer_id = ''a@x.com'', stamps = n, last_redeemed_at = lr, last_stamped_at = ls\<rparr>"


text \<open>A store holding that customer with a wallet.\<close>

definition db_ax :: "int \<Rightarrow> int option \<Rightarrow> int option \<Rightarrow> db" where
  "db_ax n lr ls =
     \<lparr>customers = [\<lparr>cust_id = ''a@x.com'', cust_name = None, cust_email = Some ''a@x.com'',
                     cust_phone = None, created_at = 0\<rparr>],
      wallets = [wallet_ax n lr ls],
      issued = []\<rparr>"

text \<open>
  The scenario: signup at time 0, then \<open>n\<close> stamp-adds, one every 120 seconds from
  120 seconds on.
\<close>

definition add_at :: "nat \<Rightarrow> api_call" where
  "add_at k = StampsAdd (clock_at (int k * 120000)) add_ax"

definition scenario :: "nat \<Rightarrow> api_call list" where
  "scenario n = Signup (clock_at 0) signup_ax # map add_at [1..<Suc n]"

text \<open>A stamp body for the customer of the scenario.\<close>

definition stamp_reply :: "int \<Rightarrow> bool \<Rightarrow> string option \<Rightarrow> response" where
  "stamp_reply n r m =
     StampJson \<lparr>st_customerId = ''a@x.com'', st_stamps = n, st_redeemed = r, st_rewardMessage = m\<rparr>"

text \<open>
  Stamp-adds at the clocks \<open>ks\<close>, each finding the cooldown elapsed: the first since the
  time \<open>since\<close>, each next one since the stamp written by the one before.
\<close>

fun spaced :: "int \<Rightarrow> clock list \<Rightarrow> bool" where
  "spaced since [] = True"
| "spaced since (k # ks) = (COOLDOWN_MS \<le> Date_now k - since \<and> spaced (stamped_now k) ks)"

text \<open>
  What lines 483 to 515 answer to consecutive stamp-adds of the scenario's customer,
  from the counter \<open>n\<close> on.
\<close>

fun stamp_replies :: "int \<Rightarrow> clock list \<Rightarrow> response list" where
  "stamp_replies n [] = []"
| "stamp_replies n (k # ks) =
     (if n < 10
      then stamp_reply (n + 1) False (if n = 9 then Some rewardText else None) #
           stamp_replies (n + 1) ks
      else stamp_reply 0 True None # stamp_replies 0 ks)"

section \<open>Auxiliary facts\<close>

subsection \<open>Lists\<close>

lemma find_append_none: "find P xs = None \<Longrightarrow> find P (xs @ ys) = find P ys"
  by (induction xs) (auto split: if_splits)

lemma find_append_some: "find P xs = Some x \<Longrightarrow> find P (xs @ ys) = Some x"
  by (induction xs) (auto split: if_splits)

lemma find_map_pres: "(\<And>x. P (f x) = P x) \<Longrightarrow> find P (map f xs) = map_option f (find P xs)"
  by (induction xs) auto

subsection \<open>The data helpers on the tables, under either backend\<close>

text \<open>The two branches declare the same constraints.\<close>

lemma schemas_agree: "turso_schema = sqlite_schema"
  by (simp add: turso_schema_def sqlite_schema_def)

lemma customer_conflict_eq:
  "customer_conflict sqlite_schema i e p rs =
     list_ex (\<lambda>r. cust_id r = i \<or> (e \<noteq> None \<and> cust_email r = e)
                    \<or> (p \<noteq> None \<and> cust_phone r = p)) rs"
  by (simp add: customer_conflict_def sqlite_schema_def)

lemma sql_exec_InsertWallet:
  "sql_exec sqlite_schema (InsertWallet c) d =
     (if list_ex (\<lambda>w. customer_id w = c) (wallets d) \<or>
         \<not> list_ex (\<lambda>r. cust_id r = c) (customers d)
      then (Inl SqliteConstraint, d\<lparr>issued := issued d @ [InsertWallet c]\<rparr>)
      else (Inr ([], 1),
            d\<lparr>wallets := wallets d @
                 [\<lparr>customer_id = c, stamps = 0, last_redeemed_at = None, last_stamped_at = None\<rparr>],
              issued := issued d @ [InsertWallet c]\<rparr>))"
  by (simp add: sqlite_schema_def)

lemma getCustomerByIdentifier_eq:
  "getCustomerByIdentifier be x d =
     (Inr (select_customer x x (customers d)), d\<lparr>issued := issued d @ [SelectCustomer x x]\<rparr>)"
  by (simp add: getCustomerByIdentifier_def dbGetOne_def turso_execute_def sqlite_get_def
      split: option.splits)

lemma createCustomer_eq:
  "createCustomer be t c d =
     (if customer_conflict sqlite_schema (cust_id c) (cust_email c) (cust_phone c) (customers d)
      then (Inl SqliteConstraint,
            d\<lparr>issued := issued d @
                 [InsertCustomer (cust_id c) (cust_name c) (cust_email c) (cust_phone c) t]\<rparr>)
      else (Inr (),
            d\<lparr>customers := customers d @
                 [\<lparr>cust_id = cust_id c, cust_name = cust_name c, cust_email = cust_email c,
                   cust_phone = cust_phone c, created_at = t\<rparr>],
              issued := issued d @
                 [InsertCustomer (cust_id c) (cust_name c) (cust_email c) (cust_phone c) t]\<rparr>))"
  by (simp add: createCustomer_def dbRun_def turso_execute_def sqlite_run_def schemas_agree)

lemma getWallet_eq:
  "getWallet be c d =
     (Inr (select_wallet c (wallets d)), d\<lparr>issued := issued d @ [SelectWallet c]\<rparr>)"
  by (simp add: getWallet_def dbGetOne_def turso_execute_def sqlite_get_def
      split: option.splits)

lemma createWallet_eq:
  "createWallet be c d =
     (if list_ex (\<lambda>w. customer_id w = c) (wallets d) \<or>
         \<not> list_ex (\<lambda>r. cust_id r = c) (customers d)
      then (Inl SqliteConstraint, d\<lparr>issued := issued d @ [InsertWallet c]\<rparr>)
      else (Inr (),
            d\<lparr>wallets := wallets d @
                 [\<lparr>customer_id = c, stamps = 0, last_redeemed_at = None, last_stamped_at = None\<rparr>],
              issued := issued d @ [InsertWallet c]\<rparr>))"
  by (simp add: createWallet_def dbRun_def turso_execute_def sqlite_run_def schemas_agree
      sql_exec_InsertWallet del: sql_exec.simps(4))

lemma updateWallet_eq:
  "updateWallet be c s lr ls d =
     (Inr (), d\<lparr>wallets := map (update_row s lr ls c) (wallets d),
                issued := issued d @ [UpdateWallet s lr ls c]\<rparr>)"
  by (simp add: updateWallet_def dbRun_def turso_execute_def sqlite_run_def)

lemma select_wallet_None: "select_wallet c ws = None \<Longrightarrow> \<not> list_ex (\<lambda>w. customer_id w = c) ws"
  by (auto simp: select_wallet_def find_None_iff list_ex_iff)

lemma select_wallet_Some: "select_wallet c ws = Some w \<Longrightarrow> customer_id w = c \<and> w \<in> set ws"
  by (auto simp: select_wallet_def find_Some_iff)

lemma ensure_wallet_cases:
  "ensure_wallet be c d =
     (case select_wallet (cust_id c) (wallets d) of
        Some w \<Rightarrow> (Inr w, d\<lparr>issued := issued d @ [SelectWallet (cust_id c)]\<rparr>)
      | None \<Rightarrow>
          if list_ex (\<lambda>r. cust_id r = cust_id c) (customers d)
          then (Inr \<lparr>customer_id = cust_id c, stamps = 0, last_redeemed_at = None,
                     last_stamped_at = None\<rparr>,
                d\<lparr>wallets := wallets d @
                     [\<lparr>customer_id = cust_id c, stamps = 0, last_redeemed_at = None,
                       last_stamped_at = None\<rparr>],
                  issued := issued d @ [SelectWallet (cust_id c), InsertWallet (cust_id c)]\<rparr>)
          else (Inl SqliteConstraint,
                d\<lparr>issued := issued d @ [SelectWallet (cust_id c), InsertWallet (cust_id c)]\<rparr>))"
proof (cases "select_wallet (cust_id c) (wallets d)")
  case None
  then have "\<not> list_ex (\<lambda>w. customer_id w = cust_id c) (wallets d)"
    by (rule select_wallet_None)
  with None show ?thesis
    by (simp add: ensure_wallet_def getWallet_eq createWallet_eq)
next
  case (Some w)
  then show ?thesis
    by (simp add: ensure_wallet_def getWallet_eq)
qed

lemma ensure_wallet_eq:
  assumes "list_ex (\<lambda>r. cust_id r = cust_id c) (customers d)"
  shows "ensure_wallet be c d =
     (case select_wallet (cust_id c) (wallets d) of
        Some w \<Rightarrow> (Inr w, d\<lparr>issued := issued d @ [SelectWallet (cust_id c)]\<rparr>)
      | None \<Rightarrow>
          (Inr \<lparr>customer_id = cust_id c, stamps = 0, last_redeemed_at = None, last_stamped_at = None\<rparr>,
           d\<lparr>wallets := wallets d @
                [\<lparr>customer_id = cust_id c, stamps = 0, last_redeemed_at = None, last_stamped_at = None\<rparr>],
             issued := issued d @ [SelectWallet (cust_id c), InsertWallet (cust_id c)]\<rparr>))"
  using assms by (simp add: ensure_wallet_cases split: option.splits)

lemma select_customer_None:
  "select_customer a b rs = None \<Longrightarrow> r \<in> set rs \<Longrightarrow> cust_email r \<noteq> Some a \<and> cust_phone r \<noteq> Some b"
  by (auto simp: select_customer_def find_None_iff)

lemma select_customer_snoc:
  "select_customer a b rs = None \<Longrightarrow> cust_email r = Some a \<or> cust_phone r = Some b \<Longrightarrow>
   select_customer a b (rs @ [r]) = Some (customer.truncate r)"
  by (auto simp: select_customer_def find_append_none)

lemma stamps_add_customer_eq:
  "stamps_add_customer be clk x d =
     (case select_customer x x (customers d) of
        Some c \<Rightarrow> (Inr c, d\<lparr>issued := issued d @ [SelectCustomer x x]\<rparr>)
      | None \<Rightarrow>
          (let e = (if CHR ''@'' \<in> set x then Some x else None);
               p = (if CHR ''@'' \<in> set x then None else Some x);
               ins = InsertCustomer x None e p (created_now clk)
           in if customer_conflict sqlite_schema x e p (customers d)
              then (Inl SqliteConstraint,
                    d\<lparr>issued := issued d @ [SelectCustomer x x, ins]\<rparr>)
              else (Inr \<lparr>cust_id = x, cust_name = None, cust_email = e, cust_phone = p\<rparr>,
                    d\<lparr>customers := customers d @
                         [\<lparr>cust_id = x, cust_name = None, cust_email = e, cust_phone = p,
                           created_at = created_now clk\<rparr>],
                      issued := issued d @ [SelectCustomer x x, ins, SelectCustomer x x]\<rparr>)))"
  by (auto simp: stamps_add_customer_def getCustomerByIdentifier_eq createCustomer_eq Let_def
      select_customer_snoc customer.truncate_def
      split: option.splits)

lemma signup_customer_eq:
  assumes "js_or (req_email req) (req_phone req) = Some x" and "x \<noteq> []"
  shows "signup_customer be clk req x d =
     (case select_customer x x (customers d) of
        Some c \<Rightarrow> (Inr c, d\<lparr>issued := issued d @ [SelectCustomer x x]\<rparr>)
      | None \<Rightarrow>
          (let e = js_or (req_email req) None;
               p = js_or (req_phone req) None;
               ins = InsertCustomer x (req_name req) e p (created_now clk)
           in if customer_conflict sqlite_schema x e p (customers d)
              then (Inl SqliteConstraint,
                    d\<lparr>issued := issued d @ [SelectCustomer x x, ins]\<rparr>)
              else (Inr \<lparr>cust_id = x, cust_name = req_name req, cust_email = e, cust_phone = p\<rparr>,
                    d\<lparr>customers := customers d @
                         [\<lparr>cust_id = x, cust_name = req_name req, cust_email = e, cust_phone = p,
                           created_at = created_now clk\<rparr>],
                      issued := issued d @ [SelectCustomer x x, ins, SelectCustomer x x]\<rparr>)))"
proof (cases "select_customer x x (customers d)")
  case (Some c)
  then show ?thesis
    by (simp add: signup_customer_def getCustomerByIdentifier_eq)
next
  case None
  from assms have hit: "js_or (req_email req) None = Some x \<or> js_or (req_phone req) None = Some x"
    by (auto simp: js_or_def truthy_def split: if_splits option.splits)
  have "select_customer x x
          (customers d @
             [\<lparr>cust_id = x, cust_name = req_name req, cust_email = js_or (req_email req) None,
               cust_phone = js_or (req_phone req) None, created_at = created_now clk\<rparr>]) =
        Some \<lparr>cust_id = x, cust_name = req_name req, cust_email = js_or (req_email req) None,
               cust_phone = js_or (req_phone req) None\<rparr>"
    using select_customer_snoc [OF None, of _ ] hit
    by (simp add: customer.truncate_def)
  with None show ?thesis
    by (simp add: signup_customer_def getCustomerByIdentifier_eq createCustomer_eq Let_def)
qed

subsection \<open>The handlers on the tables\<close>

lemma stamps_add_unauthorized:
  "isValidStaticToken cfg (req_token req) = Inr False \<Longrightarrow>
   stamps_add cfg clk req d = (HttpError 401 ''Unauthorized: invalid token'', d)"
  by (simp add: stamps_add_def)

lemma stamps_add_threw:
  "isValidStaticToken cfg (req_token req) = Inl e \<Longrightarrow>
   stamps_add cfg clk req d = (HttpError 500 ''Stamp add failed'', d)"
  by (simp add: stamps_add_def)

lemma stamps_add_award_eq:
  "stamps_add_award be clk c w d =
     (if Date_now clk - last_ms w < COOLDOWN_MS then
        (CooldownJson \<lparr>cd_customerId = cust_id c, cd_stamps = stamps w, cd_cooldown = True,
                       cd_cooldownMinutes = 2,
                       cd_secondsLeft = ceil_div (COOLDOWN_MS - (Date_now clk - last_ms w)) 1000\<rparr>, d)
      else if stamps w < 10 then
        (StampJson \<lparr>st_customerId = cust_id c, st_stamps = stamps w + 1, st_redeemed = False,
                    st_rewardMessage = (if stamps w = 9 then Some rewardText else None)\<rparr>,
         d\<lparr>wallets := map (update_row (stamps w + 1) (last_redeemed_at w)
                             (Some (stamped_now clk)) (cust_id c)) (wallets d),
           issued := issued d @ [UpdateWallet (stamps w + 1) (last_redeemed_at w)
                                   (Some (stamped_now clk)) (cust_id c)]\<rparr>)
      else
        (StampJson \<lparr>st_customerId = cust_id c, st_stamps = 0, st_redeemed = True,
                    st_rewardMessage = None\<rparr>,
         d\<lparr>wallets := map (update_row 0 (Some (redeemed_now clk))
                             (Some (stamped_now clk)) (cust_id c)) (wallets d),
           issued := issued d @ [UpdateWallet 0 (Some (redeemed_now clk))
                                   (Some (stamped_now clk)) (cust_id c)]\<rparr>))"
  by (simp add: stamps_add_award_def updateWallet_eq Let_def last_ms_def COOLDOWN_MS_def)

lemma stamps_add_resolved:
  "isValidStaticToken cfg (req_token req) = Inr True \<Longrightarrow> req_identifier req = Some x \<Longrightarrow> x \<noteq> [] \<Longrightarrow>
   stamps_add_customer (useTurso cfg) clk x d = (Inr c, d1) \<Longrightarrow>
   ensure_wallet (useTurso cfg) c d1 = (Inr w, d2) \<Longrightarrow>
   stamps_add cfg clk req d = stamps_add_award (useTurso cfg) clk c w d2"
  by (simp add: stamps_add_def)

lemma select_wallet_snoc:
  "select_wallet c ws = None \<Longrightarrow> customer_id w = c \<Longrightarrow> select_wallet c (ws @ [w]) = Some w"
  by (simp add: select_wallet_def find_append_none)

lemma ensure_wallet_props:
  assumes "ensure_wallet be c d1 = (Inr w, d2)"
  shows "select_wallet (cust_id c) (wallets d2) = Some w \<and>
         customers d2 = customers d1 \<and>
         (wallets d2 = wallets d1 \<or>
          (select_wallet (cust_id c) (wallets d1) = None \<and>
           w = \<lparr>customer_id = cust_id c, stamps = 0, last_redeemed_at = None,
                 last_stamped_at = None\<rparr> \<and>
           wallets d2 = wallets d1 @ [w]))"
proof (cases "select_wallet (cust_id c) (wallets d1)")
  case None
  with assms show ?thesis
    by (auto simp: ensure_wallet_cases select_wallet_snoc split: if_splits)
next
  case (Some w')
  with assms show ?thesis
    by (auto simp: ensure_wallet_cases)
qed

lemma ensure_wallet_failed:
  assumes "ensure_wallet be c d1 = (Inl e, d2)"
  shows "customers d2 = customers d1 \<and> wallets d2 = wallets d1"
  using assms
  by (cases "select_wallet (cust_id c) (wallets d1)")
     (auto simp: ensure_wallet_cases split: if_splits)

lemma select_wallet_update:
  assumes "select_wallet c ws = Some w"
  shows "select_wallet c (map (update_row s lr ls c) ws) =
         Some (w\<lparr>stamps := s, last_redeemed_at := lr, last_stamped_at := ls\<rparr>)"
proof -
  have "customer_id w = c"
    using assms by (simp add: select_wallet_Some)
  moreover have "find (\<lambda>w. customer_id w = c) (map (update_row s lr ls c) ws) =
                 map_option (update_row s lr ls c) (find (\<lambda>w. customer_id w = c) ws)"
    by (rule find_map_pres) (simp add: update_row_def)
  ultimately show ?thesis
    using assms by (simp add: select_wallet_def update_row_def)
qed

lemmas token_defs = isValidStaticToken_def QR_SECRET_def js_or_def truthy_def

lemma select_customer_Some:
  "select_customer a b rs = Some c \<Longrightarrow> \<exists>r \<in> set rs. cust_id r = cust_id c"
  by (auto simp: select_customer_def find_Some_iff customer.truncate_def)

lemma select_customer_exists:
  "select_customer a b rs = Some c \<Longrightarrow> list_ex (\<lambda>r. cust_id r = cust_id c) rs"
  by (drule select_customer_Some) (simp add: list_ex_iff)

subsection \<open>Resolution of the customer and the wallet\<close>

lemma ceil_div_1000: "ceil_div a 1000 = \<lceil>real_of_int a / 1000\<rceil>"
  using ceiling_divide_eq_div [where 'a = real, of a 1000] by (simp add: ceil_div_def)

lemma stamps_add_customer_props:
  assumes "stamps_add_customer be clk x d = (Inr c, d1)"
  shows "select_customer x x (customers d1) = Some c \<and> wallets d1 = wallets d \<and>
         (\<exists>rs. customers d1 = customers d @ rs)"
proof (cases "select_customer x x (customers d)")
  case (Some c')
  with assms show ?thesis
    by (auto simp: stamps_add_customer_eq)
next
  case None
  with assms show ?thesis
    by (auto simp: stamps_add_customer_eq Let_def select_customer_snoc customer.truncate_def
        split: if_splits)
qed

lemma stamps_add_customer_failed:
  assumes "stamps_add_customer be clk x d = (Inl e, d1)"
  shows "customers d1 = customers d \<and> wallets d1 = wallets d"
  using assms
  by (cases "select_customer x x (customers d)")
     (auto simp: stamps_add_customer_eq Let_def split: if_splits)

lemma signup_customer_props:
  assumes "js_or (req_email req) (req_phone req) = Some x" and "x \<noteq> []"
    and "signup_customer be clk req x d = (Inr c, d1)"
  shows "select_customer x x (customers d1) = Some c \<and> wallets d1 = wallets d \<and>
         (\<exists>rs. customers d1 = customers d @ rs)"
proof (cases "select_customer x x (customers d)")
  case (Some c')
  with assms show ?thesis
    by (auto simp: signup_customer_eq)
next
  case None
  from assms(1,2)
  have hit: "js_or (req_email req) None = Some x \<or> js_or (req_phone req) None = Some x"
    by (auto simp: js_or_def truthy_def split: if_splits option.splits)
  have "select_customer x x
          (customers d @
             [\<lparr>cust_id = x, cust_name = req_name req, cust_email = js_or (req_email req) None,
               cust_phone = js_or (req_phone req) None, created_at = created_now clk\<rparr>]) =
        Some \<lparr>cust_id = x, cust_name = req_name req, cust_email = js_or (req_email req) None,
               cust_phone = js_or (req_phone req) None\<rparr>"
    using select_customer_snoc [OF None] hit by (simp add: customer.truncate_def)
  with None assms show ?thesis
    by (auto simp: signup_customer_eq Let_def split: if_splits)
qed

lemma signup_customer_failed:
  assumes "js_or (req_email req) (req_phone req) = Some x" and "x \<noteq> []"
    and "signup_customer be clk req x d = (Inl e, d1)"
  shows "customers d1 = customers d \<and> wallets d1 = wallets d"
  using assms
  by (cases "select_customer x x (customers d)")
     (auto simp: signup_customer_eq Let_def split: if_splits)

text \<open>The wallet of a customer that was just read is found or created: no constraint fails.\<close>

lemma ensure_wallet_resolved:
  assumes "select_customer a b (customers d1) = Some c"
  shows "\<exists>w d2. ensure_wallet be c d1 = (Inr w, d2)"
  using select_customer_exists [OF assms]
  by (cases "select_wallet (cust_id c) (wallets d1)") (simp_all add: ensure_wallet_eq)

text \<open>
  The outcomes of a stamp-add: the request is turned away with the store untouched; or
  the insert of the customer fails, which leaves both tables as they were; or customer
  and wallet are resolved and lines 467 to 515 decide.
\<close>

lemma stamps_add_cases:
  obtains (rejected) n msg where "stamps_add cfg clk req d = (HttpError n msg, d)"
  | (failed) d1 where "stamps_add cfg clk req d = (HttpError 500 ''Stamp add failed'', d1)"
      "customers d1 = customers d" "wallets d1 = wallets d"
  | (resolved) x c d1 w d2 where
      "isValidStaticToken cfg (req_token req) = Inr True"
      "req_identifier req = Some x" "x \<noteq> []"
      "stamps_add_customer (useTurso cfg) clk x d = (Inr c, d1)"
      "ensure_wallet (useTurso cfg) c d1 = (Inr w, d2)"
      "stamps_add cfg clk req d = stamps_add_award (useTurso cfg) clk c w d2"
proof (cases "isValidStaticToken cfg (req_token req)")
  case (Inl e)
  then show ?thesis
    by (intro rejected) (simp add: stamps_add_threw)
next
  case (Inr ok)
  show ?thesis
  proof (cases ok)
    case False
    with Inr show ?thesis
      by (intro rejected) (simp add: stamps_add_unauthorized)
  next
    case True
    with Inr have auth: "isValidStaticToken cfg (req_token req) = Inr True"
      by simp
    show ?thesis
    proof (cases "truthy (req_identifier req)")
      case False
      with auth show ?thesis
        by (intro rejected [of 400 "''Missing identifier (email or phone)''"])
           (auto simp: stamps_add_def truthy_def split: option.splits)
    next
      case True
      then obtain x where x: "req_identifier req = Some x" "x \<noteq> []"
        by (auto simp: truthy_def split: option.splits)
      obtain r d1 where c: "stamps_add_customer (useTurso cfg) clk x d = (r, d1)"
        by (cases "stamps_add_customer (useTurso cfg) clk x d")
      show ?thesis
      proof (cases r)
        case (Inl e)
        with auth x c stamps_add_customer_failed [of "useTurso cfg" clk x d e d1] show ?thesis
          by (intro failed [of d1]) (simp_all add: stamps_add_def)
      next
        case (Inr cu)
        with c stamps_add_customer_props [of "useTurso cfg" clk x d cu d1]
        have "select_customer x x (customers d1) = Some cu"
          by simp
        from ensure_wallet_resolved [OF this] obtain w d2 where
          e: "ensure_wallet (useTurso cfg) cu d1 = (Inr w, d2)"
          by blast
        from auth x c Inr e show ?thesis
          by (intro resolved [of x cu d1 w d2]) (simp_all add: stamps_add_def)
      qed
    qed
  qed
qed

text \<open>The outcomes of a signup, likewise.\<close>

lemma signup_cases:
  obtains (rejected) "signup cfg clk req d = (HttpError 400 ''Missing email or phone'', d)"
  | (failed) d1 where "signup cfg clk req d = (HttpError 500 ''Signup failed'', d1)"
      "customers d1 = customers d" "wallets d1 = wallets d"
  | (resolved) x c d1 w d2 where
      "js_or (req_email req) (req_phone req) = Some x" "x \<noteq> []"
      "signup_customer (useTurso cfg) clk req x d = (Inr c, d1)"
      "ensure_wallet (useTurso cfg) c d1 = (Inr w, d2)"
      "signup cfg clk req d = (SignupJson \<lparr>su_customer = c, su_stamps = stamps w\<rparr>, d2)"
proof (cases "js_or (req_email req) (req_phone req)")
  case None
  then show ?thesis
    by (intro rejected) (simp add: signup_def)
next
  case (Some x)
  show ?thesis
  proof (cases "x = []")
    case True
    with Some show ?thesis
      by (intro rejected) (simp add: signup_def)
  next
    case False
    obtain r d1 where c: "signup_customer (useTurso cfg) clk req x d = (r, d1)"
      by (cases "signup_customer (useTurso cfg) clk req x d")
    show ?thesis
    proof (cases r)
      case (Inl e)
      with Some False c signup_customer_failed [of req x "useTurso cfg" clk d e d1] show ?thesis
        by (intro failed [of d1]) (simp_all add: signup_def)
    next
      case (Inr cu)
      with Some False c signup_customer_props [of req x "useTurso cfg" clk d cu d1]
      have "select_customer x x (customers d1) = Some cu"
        by simp
      from ensure_wallet_resolved [OF this] obtain w d2 where
        e: "ensure_wallet (useTurso cfg) cu d1 = (Inr w, d2)"
        by blast
      from Some False c Inr e show ?thesis
        by (intro resolved [of x cu d1 w d2]) (simp_all add: signup_def)
    qed
  qed
qed

lemma stamps_add_found:
  assumes "isValidStaticToken cfg (req_token req) = Inr True"
    and "req_identifier req = Some x" "x \<noteq> []"
    and "select_customer x x (customers d) = Some c"
    and "select_wallet (cust_id c) (wallets d) = Some w"
  shows "stamps_add cfg clk req d =
         stamps_add_award (useTurso cfg) clk c w
           (d\<lparr>issued := issued d @ [SelectCustomer x x, SelectWallet (cust_id c)]\<rparr>)"
  using assms select_customer_exists [OF assms(4)]
  by (simp add: stamps_add_def stamps_add_customer_eq ensure_wallet_eq)

lemma run_snd_Cons: "snd (run cfg (a # calls) d) = snd (run cfg calls (snd (api_step cfg a d)))"
  by (simp split: prod.splits)

subsection \<open>The handlers keep the counter in range\<close>

lemma ensure_wallet_range:
  assumes "list_all stamps_in_range (wallets d)" and "ensure_wallet be c d = (Inr w, d')"
  shows "list_all stamps_in_range (wallets d') \<and> stamps_in_range w"
proof -
  from ensure_wallet_props [OF assms(2)] have
    w: "select_wallet (cust_id c) (wallets d') = Some w" and
    ws: "wallets d' = wallets d \<or>
         (w = \<lparr>customer_id = cust_id c, stamps = 0, last_redeemed_at = None,
               last_stamped_at = None\<rparr> \<and> wallets d' = wallets d @ [w])"
    by blast+
  from ws assms(1) have all: "list_all stamps_in_range (wallets d')"
    by (auto simp: stamps_in_range_def)
  moreover from w have "w \<in> set (wallets d')"
    by (simp add: select_wallet_Some)
  ultimately have "stamps_in_range w"
    by (simp add: list_all_iff)
  with all show ?thesis
    by simp
qed

lemma award_range:
  assumes "stamps_in_range w" and "list_all stamps_in_range (wallets d)"
  shows "list_all stamps_in_range (wallets (snd (stamps_add_award be clk c w d)))"
  using assms
  by (auto simp: stamps_add_award_eq list_all_iff stamps_in_range_def update_row_def)

lemma stamps_add_range:
  assumes "list_all stamps_in_range (wallets d)"
  shows "list_all stamps_in_range (wallets (snd (stamps_add cfg clk req d)))"
proof (cases rule: stamps_add_cases [of cfg clk req d])
  case (rejected n msg)
  with assms show ?thesis by simp
next
  case (failed d1)
  with assms show ?thesis by simp
next
  case (resolved x c d1 w d2)
  from stamps_add_customer_props [OF resolved(4)] assms
  have "list_all stamps_in_range (wallets d1)"
    by simp
  from ensure_wallet_range [OF this resolved(5)] show ?thesis
    by (simp add: resolved(6) award_range)
qed

lemma signup_range:
  assumes "list_all stamps_in_range (wallets d)"
  shows "list_all stamps_in_range (wallets (snd (signup cfg clk req d)))"
proof (cases rule: signup_cases [of cfg clk req d])
  case rejected
  with assms show ?thesis by simp
next
  case (failed d1)
  with assms show ?thesis by simp
next
  case (resolved x c d1 w d2)
  from signup_customer_props [OF resolved(1,2,3)] assms
  have "list_all stamps_in_range (wallets d1)"
    by simp
  from ensure_wallet_range [OF this resolved(4)] show ?thesis
    by (simp add: resolved(5))
qed

lemma run_range:
  "list_all stamps_in_range (wallets d) \<Longrightarrow>
   list_all stamps_in_range (wallets (snd (run cfg calls d)))"
proof (induction calls arbitrary: d)
  case Nil
  then show ?case by simp
next
  case (Cons a calls)
  have "list_all stamps_in_range (wallets (snd (api_step cfg a d)))"
    using Cons.prems by (cases a) (simp_all add: signup_range stamps_add_range)
  from Cons.IH [OF this] show ?case
    by (simp only: run_snd_Cons)
qed

subsection \<open>Well-formed stores are preserved\<close>

lemma unseen_no_conflict:
  assumes wf: "db_wf d" and unseen: "select_customer x x (customers d) = None"
  shows "\<not> list_ex (\<lambda>r. cust_id r = x \<or> cust_email r = Some x \<or> cust_phone r = Some x)
              (customers d)"
    and "select_wallet x (wallets d) = None"
proof -
  have no: "cust_email r \<noteq> Some x \<and> cust_phone r \<noteq> Some x" if "r \<in> set (customers d)" for r
    using unseen that by (rule select_customer_None)
  have ids: "cust_id r \<noteq> x" if "r \<in> set (customers d)" for r
  proof
    assume "cust_id r = x"
    moreover from wf that have "id_is_identifier r"
      by (simp add: db_wf_def list_all_iff)
    ultimately show False
      using no [OF that] by (simp add: id_is_identifier_def)
  qed
  from no ids
  show "\<not> list_ex (\<lambda>r. cust_id r = x \<or> cust_email r = Some x \<or> cust_phone r = Some x)
              (customers d)"
    by (auto simp: list_ex_iff)
  show "select_wallet x (wallets d) = None"
  proof (rule ccontr)
    assume "select_wallet x (wallets d) \<noteq> None"
    then obtain w where "select_wallet x (wallets d) = Some w"
      by auto
    then have "customer_id w = x" "w \<in> set (wallets d)"
      by (simp_all add: select_wallet_Some)
    with wf obtain r where "r \<in> set (customers d)" "cust_id r = x"
      by (auto simp: db_wf_def list_all_iff list_ex_iff)
    with ids show False
      by blast
  qed
qed

lemma db_wf_issued [simp]: "db_wf (d\<lparr>issued := l\<rparr>) = db_wf d"
  by (simp add: db_wf_def)

lemma db_wf_add_customer:
  assumes "db_wf d" and "e = Some i \<or> p = Some i"
  shows "db_wf (d\<lparr>customers := customers d @
                  [\<lparr>cust_id = i, cust_name = n, cust_email = e, cust_phone = p, created_at = t\<rparr>]\<rparr>)"
  using assms by (auto simp: db_wf_def id_is_identifier_def list_all_iff list_ex_iff)

lemma db_wf_add_wallet:
  assumes "db_wf d" and "list_ex (\<lambda>r. cust_id r = c) (customers d)"
  shows "db_wf (d\<lparr>wallets := wallets d @
                  [\<lparr>customer_id = c, stamps = s, last_redeemed_at = lr, last_stamped_at = ls\<rparr>]\<rparr>)"
  using assms by (auto simp: db_wf_def list_all_iff list_ex_iff)

lemma db_wf_update:
  assumes "db_wf d"
  shows "db_wf (d\<lparr>wallets := map (update_row s lr ls c) (wallets d)\<rparr>)"
  using assms by (auto simp: db_wf_def list_all_iff list_ex_iff update_row_def)

lemma db_wf_tables:
  "customers d1 = customers d \<Longrightarrow> wallets d1 = wallets d \<Longrightarrow> db_wf d1 = db_wf d"
  by (simp add: db_wf_def)

lemma stamps_add_customer_wf:
  assumes "db_wf d" and "stamps_add_customer be clk x d = (r, d1)"
  shows "db_wf d1"
  using assms
  by (cases "select_customer x x (customers d)")
     (auto simp: stamps_add_customer_eq Let_def db_wf_add_customer split: if_splits)

lemma signup_customer_wf:
  assumes "db_wf d" and "js_or (req_email req) (req_phone req) = Some x" and "x \<noteq> []"
    and "signup_customer be clk req x d = (r, d1)"
  shows "db_wf d1"
proof (cases "select_customer x x (customers d)")
  case (Some c)
  with assms show ?thesis
    by (auto simp: signup_customer_eq)
next
  case None
  from assms(2,3)
  have hit: "js_or (req_email req) None = Some x \<or> js_or (req_phone req) None = Some x"
    by (auto simp: js_or_def truthy_def split: if_splits option.splits)
  from db_wf_add_customer [OF assms(1) hit]
  have "db_wf (d\<lparr>customers := customers d @
                  [\<lparr>cust_id = x, cust_name = req_name req,
                    cust_email = js_or (req_email req) None,
                    cust_phone = js_or (req_phone req) None, created_at = created_now clk\<rparr>]\<rparr>)" .
  with None assms show ?thesis
    by (auto simp: signup_customer_eq Let_def split: if_splits)
qed

lemma ensure_wallet_wf:
  assumes "db_wf d" and "ensure_wallet be c d = (r, d2)"
  shows "db_wf d2"
  using assms
  by (cases "select_wallet (cust_id c) (wallets d)")
     (auto simp: ensure_wallet_cases db_wf_add_wallet split: if_splits)

lemma award_wf: "db_wf d \<Longrightarrow> db_wf (snd (stamps_add_award be clk c w d))"
  by (simp add: stamps_add_award_eq db_wf_update)

lemma stamps_add_wf:
  assumes "db_wf d"
  shows "db_wf (snd (stamps_add cfg clk req d))"
proof (cases rule: stamps_add_cases [of cfg clk req d])
  case (rejected n msg)
  with assms show ?thesis by simp
next
  case (failed d1)
  from failed(2,3) have "db_wf d1 = db_wf d"
    by (rule db_wf_tables)
  with assms failed(1) show ?thesis by simp
next
  case (resolved x c d1 w d2)
  from stamps_add_customer_wf [OF assms resolved(4)] have "db_wf d1" .
  from ensure_wallet_wf [OF this resolved(5)] show ?thesis
    by (simp add: resolved(6) award_wf)
qed

lemma signup_wf:
  assumes "db_wf d"
  shows "db_wf (snd (signup cfg clk req d))"
proof (cases rule: signup_cases [of cfg clk req d])
  case rejected
  with assms show ?thesis by simp
next
  case (failed d1)
  from failed(2,3) have "db_wf d1 = db_wf d"
    by (rule db_wf_tables)
  with assms failed(1) show ?thesis by simp
next
  case (resolved x c d1 w d2)
  from signup_customer_wf [OF assms resolved(1,2,3)] have "db_wf d1" .
  from ensure_wallet_wf [OF this resolved(4)] show ?thesis
    by (simp add: resolved(5))
qed

lemma run_wf: "db_wf d \<Longrightarrow> db_wf (snd (run cfg calls d))"
proof (induction calls arbitrary: d)
  case Nil
  then show ?case by simp
next
  case (Cons a calls)
  have "db_wf (snd (api_step cfg a d))"
    using Cons.prems by (cases a) (simp_all add: signup_wf stamps_add_wf)
  from Cons.IH [OF this] show ?case
    by (simp only: run_snd_Cons)
qed

lemma reachable_db_wf: "db_wf (snd (run cfg calls fresh_db))"
  by (rule run_wf) (simp add: db_wf_def fresh_db_def)

subsection \<open>The storage surface under either backend\<close>














subsection \<open>Consecutive stamp-adds of one customer\<close>

lemma run_fst_Cons:
  "fst (run cfg (a # calls) d) = fst (api_step cfg a d) # fst (run cfg calls (snd (api_step cfg a d)))"
  by (simp split: prod.splits)

lemma add_ax_step:
  assumes secret: "QR_SECRET cfg = ''PASTA123''"
    and cs: "map customer.truncate (customers d) = [customer_ax]"
    and ws: "wallets d = [wallet_ax n lr ls]"
    and ok: "COOLDOWN_MS \<le> Date_now k - (case ls of Some t \<Rightarrow> t | None \<Rightarrow> 0)"
  shows "fst (stamps_add cfg k add_ax d) =
           (if n < 10 then stamp_reply (n + 1) False (if n = 9 then Some rewardText else None)
            else stamp_reply 0 True None) \<and>
         customers (snd (stamps_add cfg k add_ax d)) = customers d \<and>
         wallets (snd (stamps_add cfg k add_ax d)) =
           [wallet_ax (if n < 10 then n + 1 else 0)
              (if n < 10 then lr else Some (redeemed_now k)) (Some (stamped_now k))]"
proof -
  have auth: "isValidStaticToken cfg (req_token add_ax) = Inr True"
    by (simp add: isValidStaticToken_def secret add_ax_def)
  have ident: "req_identifier add_ax = Some ''a@x.com''" "''a@x.com'' \<noteq> []"
    by (simp_all add: add_ax_def)
  from cs obtain r where r: "customers d = [r]" "customer.truncate r = customer_ax"
    by (cases "customers d") auto
  then have found: "select_customer ''a@x.com'' ''a@x.com'' (customers d) = Some customer_ax"
    by (auto simp: select_customer_def customer.truncate_def customer_ax_def)
  have stored: "select_wallet (cust_id customer_ax) (wallets d) = Some (wallet_ax n lr ls)"
    by (simp add: select_wallet_def ws wallet_ax_def customer_ax_def)
  have run: "stamps_add cfg k add_ax d =
         stamps_add_award (useTurso cfg) k customer_ax (wallet_ax n lr ls)
           (d\<lparr>issued := issued d @ [SelectCustomer ''a@x.com'' ''a@x.com'',
                                    SelectWallet (cust_id customer_ax)]\<rparr>)"
    using auth ident found stored by (rule stamps_add_found)
  from ok have ok': "\<not> Date_now k - last_ms (wallet_ax n lr ls) < COOLDOWN_MS"
    by (simp add: last_ms_def wallet_ax_def)
  show ?thesis
    unfolding run using ok'
    by (simp add: stamps_add_award_eq stamp_reply_def ws wallet_ax_def customer_ax_def
        update_row_def)
qed

lemma adds_replies:
  assumes secret: "QR_SECRET cfg = ''PASTA123''"
  shows "map customer.truncate (customers d) = [customer_ax] \<Longrightarrow>
         wallets d = [wallet_ax n lr ls] \<Longrightarrow>
         spaced (case ls of Some t \<Rightarrow> t | None \<Rightarrow> 0) ks \<Longrightarrow>
         fst (run cfg (map (\<lambda>k. StampsAdd k add_ax) ks) d) = stamp_replies n ks"
proof (induction ks arbitrary: d n lr ls)
  case Nil
  then show ?case by simp
next
  case (Cons k ks)
  from Cons.prems(3) have ok: "COOLDOWN_MS \<le> Date_now k - (case ls of Some t \<Rightarrow> t | None \<Rightarrow> 0)"
    and rest: "spaced (stamped_now k) ks"
    by simp_all
  note step = add_ax_step [OF secret Cons.prems(1,2) ok]
  let ?d = "snd (stamps_add cfg k add_ax d)"
  have cs: "map customer.truncate (customers ?d) = [customer_ax]"
    using step Cons.prems(1) by simp
  have ws: "wallets ?d = [wallet_ax (if n < 10 then n + 1 else 0)
              (if n < 10 then lr else Some (redeemed_now k)) (Some (stamped_now k))]"
    using step by simp
  have "fst (run cfg (map (\<lambda>k. StampsAdd k add_ax) ks) ?d) =
        stamp_replies (if n < 10 then n + 1 else 0) ks"
    using Cons.IH [OF cs ws] rest by simp
  moreover
  have "fst (run cfg (map (\<lambda>k. StampsAdd k add_ax) (k # ks)) d) =
        fst (stamps_add cfg k add_ax d) # fst (run cfg (map (\<lambda>k. StampsAdd k add_ax) ks) ?d)"
    by (simp only: list.map run_fst_Cons api_step.simps)
  ultimately show ?case
    using step by simp
qed

lemma signup_ax_fresh:
  "fst (signup cfg k0 signup_ax fresh_db) = SignupJson \<lparr>su_customer = customer_ax, su_stamps = 0\<rparr> \<and>
   map customer.truncate (customers (snd (signup cfg k0 signup_ax fresh_db))) = [customer_ax] \<and>
   wallets (snd (signup cfg k0 signup_ax fresh_db)) = [wallet_ax 0 None None]"
proof -
  have x: "js_or (req_email signup_ax) (req_phone signup_ax) = Some ''a@x.com''" "''a@x.com'' \<noteq> []"
    by (simp_all add: js_or_def truthy_def signup_ax_def)
  show ?thesis
    using x
    by (simp add: signup_def signup_customer_eq ensure_wallet_cases fresh_db_def
        select_customer_def select_wallet_def customer_conflict_eq Let_def js_or_def truthy_def
        signup_ax_def customer_ax_def wallet_ax_def customer.truncate_def)
qed

subsection \<open>Signup, and what later calls keep\<close>

lemma signup_found:
  assumes "js_or (req_email req) (req_phone req) = Some x" and "x \<noteq> []"
    and "select_customer x x (customers d) = Some c"
    and "select_wallet (cust_id c) (wallets d) = Some w"
  shows "signup cfg clk req d =
         (SignupJson \<lparr>su_customer = c, su_stamps = stamps w\<rparr>,
          d\<lparr>issued := issued d @ [SelectCustomer x x, SelectWallet (cust_id c)]\<rparr>)"
  using assms select_customer_exists [OF assms(3)]
  by (simp add: signup_def signup_customer_eq ensure_wallet_eq)

lemma signup_keeps_wallets:
  "wallets (snd (signup cfg clk req d)) = wallets d \<or>
   (\<exists>c. select_wallet c (wallets d) = None \<and>
        wallets (snd (signup cfg clk req d)) =
          wallets d @ [\<lparr>customer_id = c, stamps = 0, last_redeemed_at = None,
                        last_stamped_at = None\<rparr>])"
proof (cases rule: signup_cases [of cfg clk req d])
  case rejected
  then show ?thesis by simp
next
  case (failed d1)
  then show ?thesis by simp
next
  case (resolved x c d1 w d2)
  from signup_customer_props [OF resolved(1,2,3)] have "wallets d1 = wallets d"
    by simp
  with ensure_wallet_props [OF resolved(4)] resolved(5) show ?thesis
    by auto
qed

lemma signup_resolved_props:
  assumes "signup cfg clk req d = (SignupJson b, d1)"
  shows "\<exists>x. js_or (req_email req) (req_phone req) = Some x \<and> x \<noteq> [] \<and>
             select_customer x x (customers d1) = Some (su_customer b) \<and>
             map_option stamps (select_wallet (cust_id (su_customer b)) (wallets d1)) =
               Some (su_stamps b)"
proof (cases rule: signup_cases [of cfg clk req d])
  case rejected
  with assms show ?thesis by simp
next
  case (failed d0)
  with assms show ?thesis by simp
next
  case (resolved x c d0 w d2)
  from signup_customer_props [OF resolved(1,2,3)]
  have "select_customer x x (customers d0) = Some c"
    by simp
  with ensure_wallet_props [OF resolved(4)] resolved(1,2,5) assms show ?thesis
    by auto
qed

lemma select_customer_append:
  "select_customer a b rs = Some c \<Longrightarrow> select_customer a b (rs @ rs') = Some c"
  by (auto simp: select_customer_def find_append_some)

lemma has_wallet_iff: "list_ex (\<lambda>w. customer_id w = c) ws \<longleftrightarrow> select_wallet c ws \<noteq> None"
  by (auto simp: select_wallet_def find_None_iff list_ex_iff)

lemma has_wallet_update:
  "list_ex (\<lambda>w. customer_id w = c) (map (update_row s lr ls c') ws) =
   list_ex (\<lambda>w. customer_id w = c) ws"
  by (induction ws) (auto simp: update_row_def)

lemma award_keeps:
  "customers (snd (stamps_add_award be clk c w d)) = customers d \<and>
   (list_ex (\<lambda>v. customer_id v = i) (wallets d) \<longrightarrow>
    list_ex (\<lambda>v. customer_id v = i) (wallets (snd (stamps_add_award be clk c w d))))"
  by (simp add: stamps_add_award_eq has_wallet_update)

lemma ensure_wallet_keeps:
  assumes "ensure_wallet be c d1 = (Inr w, d2)"
  shows "customers d2 = customers d1 \<and>
         (list_ex (\<lambda>v. customer_id v = i) (wallets d1) \<longrightarrow>
          list_ex (\<lambda>v. customer_id v = i) (wallets d2))"
  using ensure_wallet_props [OF assms] by auto

lemma api_step_keeps:
  "(\<exists>rs. customers (snd (api_step cfg a d)) = customers d @ rs) \<and>
   (list_ex (\<lambda>v. customer_id v = i) (wallets d) \<longrightarrow>
    list_ex (\<lambda>v. customer_id v = i) (wallets (snd (api_step cfg a d))))"
proof (cases a)
  case (Signup clk req)
  show ?thesis
  proof (cases rule: signup_cases [of cfg clk req d])
    case rejected
    with Signup show ?thesis by simp
  next
    case (failed d1)
    with Signup show ?thesis by simp
  next
    case (resolved x c d1 w d2)
    from signup_customer_props [OF resolved(1,2,3)] obtain rs where
      "customers d1 = customers d @ rs" "wallets d1 = wallets d"
      by blast
    with ensure_wallet_keeps [OF resolved(4), of i] Signup resolved(5) show ?thesis
      by simp
  qed
next
  case (StampsAdd clk req)
  show ?thesis
  proof (cases rule: stamps_add_cases [of cfg clk req d])
    case (rejected n msg)
    with StampsAdd show ?thesis by simp
  next
    case (failed d1)
    with StampsAdd show ?thesis by simp
  next
    case (resolved x c d1 w d2)
    from stamps_add_customer_props [OF resolved(4)] obtain rs where
      "customers d1 = customers d @ rs" "wallets d1 = wallets d"
      by blast
    with ensure_wallet_keeps [OF resolved(5), of i] award_keeps [of "useTurso cfg" clk c w d2 i]
      StampsAdd resolved(6)
    show ?thesis
      by simp
  qed
qed

lemma run_keeps:
  "(\<exists>rs. customers (snd (run cfg calls d)) = customers d @ rs) \<and>
   (list_ex (\<lambda>v. customer_id v = i) (wallets d) \<longrightarrow>
    list_ex (\<lambda>v. customer_id v = i) (wallets (snd (run cfg calls d))))"
proof (induction calls arbitrary: d)
  case Nil
  then show ?case by simp
next
  case (Cons a calls)
  from api_step_keeps [of cfg a d i] obtain rs where
    step: "customers (snd (api_step cfg a d)) = customers d @ rs"
      "list_ex (\<lambda>v. customer_id v = i) (wallets d) \<longrightarrow>
       list_ex (\<lambda>v. customer_id v = i) (wallets (snd (api_step cfg a d)))"
    by blast
  from Cons.IH [of "snd (api_step cfg a d)"] obtain rs' where
    rest: "customers (snd (run cfg calls (snd (api_step cfg a d)))) =
           customers (snd (api_step cfg a d)) @ rs'"
      "list_ex (\<lambda>v. customer_id v = i) (wallets (snd (api_step cfg a d))) \<longrightarrow>
       list_ex (\<lambda>v. customer_id v = i) (wallets (snd (run cfg calls (snd (api_step cfg a d)))))"
    by blast
  from step rest show ?case
    by (simp only: run_snd_Cons) auto
qed

text \<open>
  After a signup has succeeded and any calls of the API have followed, a signup with the
  same identifier finds the same customer and reports the stamps the wallet then holds.
\<close>

lemma signup_later:
  assumes first: "signup cfg clk1 req1 d = (SignupJson b, d1)"
    and same: "js_or (req_email req2) (req_phone req2) = js_or (req_email req1) (req_phone req1)"
  shows "\<exists>w. select_wallet (cust_id (su_customer b)) (wallets (snd (run cfg calls d1))) = Some w \<and>
             fst (signup cfg clk2 req2 (snd (run cfg calls d1))) =
               SignupJson \<lparr>su_customer = su_customer b, su_stamps = stamps w\<rparr> \<and>
             customers (snd (signup cfg clk2 req2 (snd (run cfg calls d1)))) =
               customers (snd (run cfg calls d1)) \<and>
             wallets (snd (signup cfg clk2 req2 (snd (run cfg calls d1)))) =
               wallets (snd (run cfg calls d1))"
proof -
  let ?c = "su_customer b"
  let ?d = "snd (run cfg calls d1)"
  from signup_resolved_props [OF first] obtain x where
    x: "js_or (req_email req1) (req_phone req1) = Some x" "x \<noteq> []" and
    found: "select_customer x x (customers d1) = Some ?c" and
    stored: "select_wallet (cust_id ?c) (wallets d1) \<noteq> None"
    by auto
  from run_keeps [of cfg calls d1 "cust_id ?c"] obtain rs where
    grow: "customers ?d = customers d1 @ rs" and
    keep: "list_ex (\<lambda>v. customer_id v = cust_id ?c) (wallets d1) \<longrightarrow>
           list_ex (\<lambda>v. customer_id v = cust_id ?c) (wallets ?d)"
    by blast
  from found grow have found': "select_customer x x (customers ?d) = Some ?c"
    by (simp add: select_customer_append)
  from stored keep obtain w where w: "select_wallet (cust_id ?c) (wallets ?d) = Some w"
    by (auto simp: has_wallet_iff)
  from same x have x2: "js_or (req_email req2) (req_phone req2) = Some x"
    by simp
  from signup_found [OF x2 x(2) found' w, of cfg clk2] w show ?thesis
    by simp
qed

subsection \<open>The concrete requests on the concrete store\<close>

lemma filter_update_row:
  "filter (\<lambda>v. customer_id v \<noteq> c) (map (update_row s lr ls c) ws) =
   filter (\<lambda>v. customer_id v \<noteq> c) ws"
  by (induction ws) (auto simp: update_row_def)

lemma add_ax_valid:
  "isValidStaticToken cfg_sqlite (req_token add_ax) = Inr True"
  "isValidStaticToken cfg_turso (req_token add_ax) = Inr True"
  by (simp_all add: token_defs cfg_sqlite_def cfg_turso_def add_ax_def)

lemma add_ax_ident: "req_identifier add_ax = Some ''a@x.com''" "''a@x.com'' \<noteq> []"
  by (simp_all add: add_ax_def)

lemma db_ax_customer:
  "stamps_add_customer be clk ''a@x.com'' (db_ax n lr ls) =
     (Inr customer_ax, (db_ax n lr ls)\<lparr>issued := [SelectCustomer ''a@x.com'' ''a@x.com'']\<rparr>)"
  by (simp add: stamps_add_customer_eq select_customer_def customer.truncate_def
      db_ax_def customer_ax_def)

lemma db_ax_wallet:
  "ensure_wallet be customer_ax
     ((db_ax n lr ls)\<lparr>issued := [SelectCustomer ''a@x.com'' ''a@x.com'']\<rparr>) =
   (Inr (wallet_ax n lr ls),
    (db_ax n lr ls)\<lparr>issued := [SelectCustomer ''a@x.com'' ''a@x.com'',
                              SelectWallet ''a@x.com'']\<rparr>)"
  by (simp add: ensure_wallet_cases select_wallet_def db_ax_def customer_ax_def wallet_ax_def)

section \<open>The claims\<close>

subsection \<open>C1: the stamp transition\<close>

text \<open>
  Claim C1. A stamp-add that is authorized, names an identifier, resolves the customer
  \<open>c\<close> and the wallet \<open>w\<close> (lines 449 to 465) and finds the cooldown elapsed answers
  with status 200 and a stamp body, and the wallet it leaves in the store is \<open>w'\<close>, where:
  below 9 stamps the count grows by one, with \<open>redeemed\<close> false and no reward message;
  at 9 stamps the count becomes 10, with \<open>redeemed\<close> false and the fixed reward text;
  from 10 stamps on the count becomes 0, with \<open>redeemed\<close> true, no reward message, and
  \<open>last_redeemed_at\<close> set to the reading of the clock taken for that column. The
  wallets of the other customers, and the customers, are as they were.
\<close>

theorem stamp_transition:
  assumes auth: "isValidStaticToken cfg (req_token req) = Inr True"
    and ident: "req_identifier req = Some x" "x \<noteq> []"
    and cust: "stamps_add_customer (useTurso cfg) clk x d = (Inr c, d1)"
    and wal: "ensure_wallet (useTurso cfg) c d1 = (Inr w, d2)"
    and elapsed: "COOLDOWN_MS \<le> Date_now clk - last_ms w"
  shows "\<exists>d3 w'.
           stamps_add cfg clk req d =
             (StampJson \<lparr>st_customerId = cust_id c, st_stamps = stamps w',
                         st_redeemed = (10 \<le> stamps w),
                         st_rewardMessage = (if stamps w = 9 then Some rewardText else None)\<rparr>,
              d3) \<and>
           select_wallet (cust_id c) (wallets d3) = Some w' \<and>
           (stamps w < 9 \<longrightarrow> stamps w' = stamps w + 1) \<and>
           (stamps w = 9 \<longrightarrow> stamps w' = 10) \<and>
           (10 \<le> stamps w \<longrightarrow> stamps w' = 0 \<and> last_redeemed_at w' = Some (redeemed_now clk)) \<and>
           filter (\<lambda>v. customer_id v \<noteq> cust_id c) (wallets d3) =
             filter (\<lambda>v. customer_id v \<noteq> cust_id c) (wallets d2) \<and>
           customers d3 = customers d2"
proof -
  from ensure_wallet_props [OF wal]
  have stored: "select_wallet (cust_id c) (wallets d2) = Some w"
    by simp
  have run: "stamps_add cfg clk req d = stamps_add_award (useTurso cfg) clk c w d2"
    using auth ident cust wal by (rule stamps_add_resolved)
  show ?thesis
  proof (cases "stamps w < 10")
    case True
    with elapsed stored show ?thesis
      by (simp add: run stamps_add_award_eq select_wallet_update filter_update_row)
  next
    case False
    with elapsed stored show ?thesis
      by (simp add: run stamps_add_award_eq select_wallet_update filter_update_row)
  qed
qed

theorem stamp_transition_witness:
  "isValidStaticToken cfg_sqlite (req_token add_ax) = Inr True \<and>
   COOLDOWN_MS \<le> Date_now (clock_at 120000) - last_ms (wallet_ax 9 None (Some 0)) \<and>
   fst (stamps_add cfg_sqlite (clock_at 120000) add_ax (db_ax 9 None (Some 0))) =
     StampJson \<lparr>st_customerId = ''a@x.com'', st_stamps = 10, st_redeemed = False,
                st_rewardMessage = Some rewardText\<rparr>"
proof -
  have elapsed: "COOLDOWN_MS \<le> Date_now (clock_at 120000) - last_ms (wallet_ax 9 None (Some 0))"
    by (simp add: COOLDOWN_MS_def clock_at_def last_ms_def wallet_ax_def)
  from stamp_transition [OF add_ax_valid(1) add_ax_ident db_ax_customer db_ax_wallet elapsed]
  have "fst (stamps_add cfg_sqlite (clock_at 120000) add_ax (db_ax 9 None (Some 0))) =
          StampJson \<lparr>st_customerId = ''a@x.com'', st_stamps = 10, st_redeemed = False,
                     st_rewardMessage = Some rewardText\<rparr>"
    by (auto simp: wallet_ax_def customer_ax_def)
  with add_ax_valid(1) elapsed show ?thesis
    by simp
qed

subsection \<open>C2: the range of the stamp counter\<close>

text \<open>
  Claim C2, as amended. After any sequence of signups and stamp-adds from the fresh
  store, every stored wallet has \<open>0 \<le> stamps \<le> 10\<close>. The bound 10 is reached: the
  tenth stamp stores 10, and only the next stamp-add resets the counter.
\<close>

theorem stamps_between_0_and_10:
  "\<forall>w \<in> set (wallets (snd (run cfg calls fresh_db))). 0 \<le> stamps w \<and> stamps w \<le> 10"
proof -
  have "list_all stamps_in_range (wallets fresh_db)"
    by (simp add: fresh_db_def)
  then have "list_all stamps_in_range (wallets (snd (run cfg calls fresh_db)))"
    by (rule run_range)
  then show ?thesis
    by (simp add: list_all_iff stamps_in_range_def)
qed

theorem stamps_between_0_and_10_witness:
  "wallet_ax 3 None (Some 360000) \<in> set (wallets (snd (run cfg_sqlite (scenario 3) fresh_db))) \<and>
   0 \<le> stamps (wallet_ax 3 None (Some 360000)) \<and> stamps (wallet_ax 3 None (Some 360000)) \<le> 10"
proof -
  have "wallets (snd (run cfg_sqlite (scenario 3) fresh_db)) = [wallet_ax 3 None (Some 360000)]"
    by code_simp
  then have "wallet_ax 3 None (Some 360000) \<in> set (wallets (snd (run cfg_sqlite (scenario 3) fresh_db)))"
    by simp
  with stamps_between_0_and_10 [of cfg_sqlite "scenario 3"] show ?thesis
    by blast
qed

text \<open>
  Claim C2 as stated (\<open>stamps < 10\<close> after every operation) fails: after a signup and
  ten stamp-adds, each 120 seconds after the one before, the stored counter is 10.
\<close>

theorem stamps_reach_10_counterexample:
  "map stamps (wallets (snd (run cfg_sqlite (scenario 10) fresh_db))) = [10]"
  by code_simp

subsection \<open>C3: the cooldown guard\<close>

text \<open>
  Claim C3. The clock of the server reads at least 120 seconds past the epoch. Let \<open>w\<close>
  be the wallet a stamp-add resolves. The stamp-add is allowed (it answers with a stamp
  body) if and only if \<open>last_stamped_at\<close> is absent or \<open>now - last_stamped_at \<ge> 120 s\<close>;
  otherwise it answers with \<open>cooldown: true\<close>. When it is not allowed, the wallet \<open>w\<close> is
  the stored one, the wallets table is left as it was, the response reports the stamp
  count of \<open>w\<close> and \<open>secondsLeft = ceil((COOLDOWN - elapsed) / 1000)\<close>. A stamp-add that
  was allowed, followed by one for the same identifier less than 120 seconds after the
  stamp was written, is answered with \<open>cooldown: true\<close> and the count the first one
  returned, and issues two reads and no write: exactly one of the two mutates the ledger.
\<close>

theorem cooldown_guard:
  assumes auth: "isValidStaticToken cfg (req_token req) = Inr True"
    and ident: "req_identifier req = Some x" "x \<noteq> []"
    and cust: "stamps_add_customer (useTurso cfg) clk x d = (Inr c, d1)"
    and wal: "ensure_wallet (useTurso cfg) c d1 = (Inr w, d2)"
    and clock: "COOLDOWN_MS \<le> Date_now clk"
  shows "((\<exists>b. fst (stamps_add cfg clk req d) = StampJson b) \<longleftrightarrow>
            (last_stamped_at w = None \<or>
             (\<exists>t. last_stamped_at w = Some t \<and> COOLDOWN_MS \<le> Date_now clk - t))) \<and>
         ((\<exists>b. fst (stamps_add cfg clk req d) = CooldownJson b) \<longleftrightarrow>
            (\<exists>t. last_stamped_at w = Some t \<and> Date_now clk - t < COOLDOWN_MS)) \<and>
         (\<forall>t. last_stamped_at w = Some t \<and> Date_now clk - t < COOLDOWN_MS \<longrightarrow>
            stamps_add cfg clk req d =
              (CooldownJson
                 \<lparr>cd_customerId = cust_id c, cd_stamps = stamps w, cd_cooldown = True,
                  cd_cooldownMinutes = 2,
                  cd_secondsLeft =
                    \<lceil>real_of_int (COOLDOWN_MS - (Date_now clk - t)) / 1000\<rceil>\<rparr>, d2) \<and>
            select_wallet (cust_id c) (wallets d) = Some w \<and>
            wallets d2 = wallets d) \<and>
         (\<forall>clk'. (last_stamped_at w = None \<or>
                  (\<exists>t. last_stamped_at w = Some t \<and> COOLDOWN_MS \<le> Date_now clk - t)) \<and>
                 Date_now clk' - stamped_now clk < COOLDOWN_MS \<longrightarrow>
            (\<exists>b d3. stamps_add cfg clk req d = (StampJson b, d3) \<and>
               stamps_add cfg clk' req d3 =
                 (CooldownJson
                    \<lparr>cd_customerId = cust_id c, cd_stamps = st_stamps b, cd_cooldown = True,
                     cd_cooldownMinutes = 2,
                     cd_secondsLeft =
                       \<lceil>real_of_int (COOLDOWN_MS - (Date_now clk' - stamped_now clk)) / 1000\<rceil>\<rparr>,
                  d3\<lparr>issued := issued d3 @ [SelectCustomer x x, SelectWallet (cust_id c)]\<rparr>)))"
proof -
  let ?allowed = "last_stamped_at w = None \<or>
                  (\<exists>t. last_stamped_at w = Some t \<and> COOLDOWN_MS \<le> Date_now clk - t)"
  from stamps_add_customer_props [OF cust]
  have found: "select_customer x x (customers d1) = Some c" and w1: "wallets d1 = wallets d"
    by simp_all
  from ensure_wallet_props [OF wal]
  have stored: "select_wallet (cust_id c) (wallets d2) = Some w"
    and c2: "customers d2 = customers d1"
    and w2: "wallets d2 = wallets d1 \<or>
             w = \<lparr>customer_id = cust_id c, stamps = 0, last_redeemed_at = None,
                   last_stamped_at = None\<rparr>"
    by auto
  have run: "stamps_add cfg clk req d = stamps_add_award (useTurso cfg) clk c w d2"
    using auth ident cust wal by (rule stamps_add_resolved)
  have early: "Date_now clk - last_ms w < COOLDOWN_MS \<longleftrightarrow>
               (\<exists>t. last_stamped_at w = Some t \<and> Date_now clk - t < COOLDOWN_MS)"
    using clock by (cases "last_stamped_at w") (simp_all add: last_ms_def)
  have late: "\<not> Date_now clk - last_ms w < COOLDOWN_MS \<longleftrightarrow> ?allowed"
    using clock by (cases "last_stamped_at w") (auto simp: last_ms_def)
  have awarded: "(\<exists>b. fst (stamps_add cfg clk req d) = StampJson b) \<longleftrightarrow> ?allowed"
    unfolding late [symmetric] by (simp add: run stamps_add_award_eq)
  have cooled: "(\<exists>b. fst (stamps_add cfg clk req d) = CooldownJson b) \<longleftrightarrow>
                (\<exists>t. last_stamped_at w = Some t \<and> Date_now clk - t < COOLDOWN_MS)"
    unfolding early [symmetric] by (simp add: run stamps_add_award_eq)
  have refused: "stamps_add cfg clk req d =
              (CooldownJson
                 \<lparr>cd_customerId = cust_id c, cd_stamps = stamps w, cd_cooldown = True,
                  cd_cooldownMinutes = 2,
                  cd_secondsLeft =
                    \<lceil>real_of_int (COOLDOWN_MS - (Date_now clk - t)) / 1000\<rceil>\<rparr>, d2) \<and>
            select_wallet (cust_id c) (wallets d) = Some w \<and>
            wallets d2 = wallets d"
    if t: "last_stamped_at w = Some t" and soon: "Date_now clk - t < COOLDOWN_MS" for t
  proof -
    from t w2 have same: "wallets d2 = wallets d"
      by (auto simp: w1)
    from t soon have "Date_now clk - last_ms w < COOLDOWN_MS" "last_ms w = t"
      by (simp_all add: last_ms_def)
    with same stored show ?thesis
      by (simp add: run stamps_add_award_eq ceil_div_1000)
  qed
  have twice: "\<exists>b d3. stamps_add cfg clk req d = (StampJson b, d3) \<and>
               stamps_add cfg clk' req d3 =
                 (CooldownJson
                    \<lparr>cd_customerId = cust_id c, cd_stamps = st_stamps b, cd_cooldown = True,
                     cd_cooldownMinutes = 2,
                     cd_secondsLeft =
                       \<lceil>real_of_int (COOLDOWN_MS - (Date_now clk' - stamped_now clk)) / 1000\<rceil>\<rparr>,
                  d3\<lparr>issued := issued d3 @ [SelectCustomer x x, SelectWallet (cust_id c)]\<rparr>)"
    if ok: ?allowed and soon: "Date_now clk' - stamped_now clk < COOLDOWN_MS" for clk'
  proof -
    from ok late have ok': "\<not> Date_now clk - last_ms w < COOLDOWN_MS"
      by simp
    obtain b d3 where first: "stamps_add_award (useTurso cfg) clk c w d2 = (StampJson b, d3)"
      and b: "st_stamps b = (if stamps w < 10 then stamps w + 1 else 0)"
      and cs: "customers d3 = customers d2"
      and ws: "wallets d3 =
                 map (update_row (if stamps w < 10 then stamps w + 1 else 0)
                        (if stamps w < 10 then last_redeemed_at w else Some (redeemed_now clk))
                        (Some (stamped_now clk)) (cust_id c)) (wallets d2)"
      using ok' by (cases "stamps w < 10") (simp_all add: stamps_add_award_eq)
    let ?w' = "w\<lparr>stamps := (if stamps w < 10 then stamps w + 1 else 0),
                  last_redeemed_at :=
                    (if stamps w < 10 then last_redeemed_at w else Some (redeemed_now clk)),
                  last_stamped_at := Some (stamped_now clk)\<rparr>"
    have found3: "select_customer x x (customers d3) = Some c"
      by (simp add: cs c2 found)
    have stored3: "select_wallet (cust_id c) (wallets d3) = Some ?w'"
      unfolding ws using stored by (rule select_wallet_update)
    have "stamps_add cfg clk' req d3 =
          stamps_add_award (useTurso cfg) clk' c ?w'
            (d3\<lparr>issued := issued d3 @ [SelectCustomer x x, SelectWallet (cust_id c)]\<rparr>)"
      using auth ident found3 stored3 by (rule stamps_add_found)
    with soon b first show ?thesis
      by (simp add: run stamps_add_award_eq last_ms_def ceil_div_1000)
  qed
  from awarded cooled refused twice show ?thesis
    by blast
qed

theorem cooldown_guard_witness:
  "COOLDOWN_MS \<le> Date_now (clock_at 1060000) \<and>
   last_stamped_at (wallet_ax 4 None (Some 1000000)) = Some 1000000 \<and>
   stamps_add cfg_sqlite (clock_at 1060000) add_ax (db_ax 4 None (Some 1000000)) =
     (CooldownJson \<lparr>cd_customerId = ''a@x.com'', cd_stamps = 4, cd_cooldown = True,
                    cd_cooldownMinutes = 2, cd_secondsLeft = 60\<rparr>,
      (db_ax 4 None (Some 1000000))\<lparr>issued := [SelectCustomer ''a@x.com'' ''a@x.com'',
                                                SelectWallet ''a@x.com'']\<rparr>) \<and>
   fst (stamps_add cfg_sqlite (clock_at 1200000) add_ax (db_ax 4 None (Some 1000000))) =
     StampJson \<lparr>st_customerId = ''a@x.com'', st_stamps = 5, st_redeemed = False,
                st_rewardMessage = None\<rparr> \<and>
   fst (stamps_add cfg_sqlite (clock_at 1260000) add_ax
          (snd (stamps_add cfg_sqlite (clock_at 1200000) add_ax (db_ax 4 None (Some 1000000))))) =
     CooldownJson \<lparr>cd_customerId = ''a@x.com'', cd_stamps = 5, cd_cooldown = True,
                   cd_cooldownMinutes = 2, cd_secondsLeft = 60\<rparr> \<and>
   wallets (snd (stamps_add cfg_sqlite (clock_at 1260000) add_ax
          (snd (stamps_add cfg_sqlite (clock_at 1200000) add_ax (db_ax 4 None (Some 1000000)))))) =
   wallets (snd (stamps_add cfg_sqlite (clock_at 1200000) add_ax (db_ax 4 None (Some 1000000))))"
proof -
  let ?d = "db_ax 4 None (Some 1000000)"
  let ?d2 = "?d\<lparr>issued := [SelectCustomer ''a@x.com'' ''a@x.com'', SelectWallet ''a@x.com'']\<rparr>"
  have clock: "COOLDOWN_MS \<le> Date_now (clock_at 1060000)" "COOLDOWN_MS \<le> Date_now (clock_at 1200000)"
    by (simp_all add: COOLDOWN_MS_def clock_at_def)
  have last: "last_stamped_at (wallet_ax 4 None (Some 1000000)) = Some 1000000"
    by (simp add: wallet_ax_def)
  have early: "Date_now (clock_at 1060000) - 1000000 < COOLDOWN_MS"
    and ok: "COOLDOWN_MS \<le> Date_now (clock_at 1200000) - 1000000"
    and soon: "Date_now (clock_at 1260000) - stamped_now (clock_at 1200000) < COOLDOWN_MS"
    by (simp_all add: COOLDOWN_MS_def clock_at_def)
  note first = cooldown_guard [OF add_ax_valid(1) add_ax_ident db_ax_customer db_ax_wallet clock(1)]
  note second = cooldown_guard [OF add_ax_valid(1) add_ax_ident db_ax_customer db_ax_wallet clock(2)]
  from first last early
  have "stamps_add cfg_sqlite (clock_at 1060000) add_ax ?d =
     (CooldownJson \<lparr>cd_customerId = cust_id customer_ax,
                    cd_stamps = stamps (wallet_ax 4 None (Some 1000000)), cd_cooldown = True,
                    cd_cooldownMinutes = 2,
                    cd_secondsLeft =
                      \<lceil>real_of_int (COOLDOWN_MS - (Date_now (clock_at 1060000) - 1000000)) /
                        1000\<rceil>\<rparr>, ?d2)"
    by blast
  then have refused: "stamps_add cfg_sqlite (clock_at 1060000) add_ax ?d =
     (CooldownJson \<lparr>cd_customerId = ''a@x.com'', cd_stamps = 4, cd_cooldown = True,
                    cd_cooldownMinutes = 2, cd_secondsLeft = 60\<rparr>, ?d2)"
    by (simp add: customer_ax_def wallet_ax_def COOLDOWN_MS_def clock_at_def)
  have awarded: "fst (stamps_add cfg_sqlite (clock_at 1200000) add_ax ?d) =
     StampJson \<lparr>st_customerId = ''a@x.com'', st_stamps = 5, st_redeemed = False,
                st_rewardMessage = None\<rparr>"
    by code_simp
  from second last ok soon obtain b d3 where
    s1: "stamps_add cfg_sqlite (clock_at 1200000) add_ax ?d = (StampJson b, d3)" and
    s2: "stamps_add cfg_sqlite (clock_at 1260000) add_ax d3 =
           (CooldownJson
              \<lparr>cd_customerId = cust_id customer_ax, cd_stamps = st_stamps b, cd_cooldown = True,
               cd_cooldownMinutes = 2,
               cd_secondsLeft =
                 \<lceil>real_of_int (COOLDOWN_MS - (Date_now (clock_at 1260000) -
                                                stamped_now (clock_at 1200000))) / 1000\<rceil>\<rparr>,
            d3\<lparr>issued := issued d3 @ [SelectCustomer ''a@x.com'' ''a@x.com'',
                                       SelectWallet (cust_id customer_ax)]\<rparr>)"
    by blast
  from s1 awarded have b: "st_stamps b = 5"
    by simp
  from s1 s2 b have again: "fst (stamps_add cfg_sqlite (clock_at 1260000) add_ax
          (snd (stamps_add cfg_sqlite (clock_at 1200000) add_ax ?d))) =
     CooldownJson \<lparr>cd_customerId = ''a@x.com'', cd_stamps = 5, cd_cooldown = True,
                   cd_cooldownMinutes = 2, cd_secondsLeft = 60\<rparr>"
    and same: "wallets (snd (stamps_add cfg_sqlite (clock_at 1260000) add_ax
          (snd (stamps_add cfg_sqlite (clock_at 1200000) add_ax ?d)))) =
        wallets (snd (stamps_add cfg_sqlite (clock_at 1200000) add_ax ?d))"
    by (simp_all add: customer_ax_def COOLDOWN_MS_def clock_at_def)
  from clock(1) last refused awarded again same show ?thesis
    by blast
qed

subsection \<open>C4: a token that is not accepted changes nothing\<close>

text \<open>
  Claim C4, as amended. A stamp-add whose token is absent or falsy, or is converted by
  \<open>String\<close> to a text other than the configured secret, is answered with status 401, and
  the store it leaves is the store it found: no wallet column changed and no customer
  row was created, whatever the identifier. This holds in particular of every JSON
  string other than the secret. A token that \<open>String\<close> cannot convert is answered with
  status 500, and the store is again the one found.
\<close>

theorem invalid_token_changes_nothing:
  "((req_token req = None \<or>
     (\<exists>v. req_token req = Some v \<and>
          (\<not> truthy_json v \<or> (\<exists>s. js_String v = Inr s \<and> s \<noteq> QR_SECRET cfg)))) \<longrightarrow>
      fst (stamps_add cfg clk req d) = HttpError 401 ''Unauthorized: invalid token'' \<and>
      snd (stamps_add cfg clk req d) = d) \<and>
   ((\<exists>s. req_token req = Some (JStr s) \<and> s \<noteq> QR_SECRET cfg) \<longrightarrow>
      fst (stamps_add cfg clk req d) = HttpError 401 ''Unauthorized: invalid token'' \<and>
      snd (stamps_add cfg clk req d) = d) \<and>
   ((\<exists>v e. req_token req = Some v \<and> truthy_json v \<and> js_String v = Inl e) \<longrightarrow>
      fst (stamps_add cfg clk req d) = HttpError 500 ''Stamp add failed'' \<and>
      snd (stamps_add cfg clk req d) = d)"
proof -
  have refused: "fst (stamps_add cfg clk req d) = HttpError 401 ''Unauthorized: invalid token'' \<and>
      snd (stamps_add cfg clk req d) = d"
    if "req_token req = None \<or>
        (\<exists>v. req_token req = Some v \<and>
             (\<not> truthy_json v \<or> (\<exists>s. js_String v = Inr s \<and> s \<noteq> QR_SECRET cfg)))"
  proof -
    from that have "isValidStaticToken cfg (req_token req) = Inr False"
      by (auto simp: isValidStaticToken_def)
    then show ?thesis
      by (simp add: stamps_add_unauthorized)
  qed
  have plain: "fst (stamps_add cfg clk req d) = HttpError 401 ''Unauthorized: invalid token'' \<and>
      snd (stamps_add cfg clk req d) = d"
    if "\<exists>s. req_token req = Some (JStr s) \<and> s \<noteq> QR_SECRET cfg"
  proof -
    from that have "isValidStaticToken cfg (req_token req) = Inr False"
      by (auto simp: isValidStaticToken_def)
    then show ?thesis
      by (simp add: stamps_add_unauthorized)
  qed
  have threw: "fst (stamps_add cfg clk req d) = HttpError 500 ''Stamp add failed'' \<and>
      snd (stamps_add cfg clk req d) = d"
    if "\<exists>v e. req_token req = Some v \<and> truthy_json v \<and> js_String v = Inl e"
  proof -
    from that obtain e where "isValidStaticToken cfg (req_token req) = Inl e"
      by (auto simp: isValidStaticToken_def)
    then show ?thesis
      by (simp add: stamps_add_threw)
  qed
  from refused plain threw show ?thesis
    by blast
qed

theorem invalid_token_changes_nothing_witness:
  "select_customer ''a@x.com'' ''a@x.com'' (customers fresh_db) = None \<and>
   stamps_add cfg_sqlite (clock_at 120000) add_ax_bad fresh_db =
     (HttpError 401 ''Unauthorized: invalid token'', fresh_db) \<and>
   js_String (JArr [JStr ''PASTA'', JNum ''123'']) = Inr ''PASTA,123'' \<and>
   stamps_add cfg_sqlite (clock_at 120000)
     \<lparr>req_identifier = Some ''a@x.com'', req_token = Some (JArr [JStr ''PASTA'', JNum ''123''])\<rparr>
     fresh_db =
     (HttpError 401 ''Unauthorized: invalid token'', fresh_db) \<and>
   stamps_add cfg_sqlite (clock_at 120000)
     \<lparr>req_identifier = Some ''a@x.com'', req_token = Some (JNum ''0'')\<rparr> fresh_db =
     (HttpError 401 ''Unauthorized: invalid token'', fresh_db) \<and>
   js_String (JObj [(''toString'', JNum ''1'')]) = Inl TypeError \<and>
   stamps_add cfg_sqlite (clock_at 120000)
     \<lparr>req_identifier = Some ''a@x.com'', req_token = Some (JObj [(''toString'', JNum ''1'')])\<rparr>
     fresh_db =
     (HttpError 500 ''Stamp add failed'', fresh_db)"
proof -
  let ?pair = "\<lparr>req_identifier = Some ''a@x.com'',
                req_token = Some (JArr [JStr ''PASTA'', JNum ''123''])\<rparr>"
  let ?zero = "\<lparr>req_identifier = Some ''a@x.com'', req_token = Some (JNum ''0'')\<rparr>"
  let ?obj = "\<lparr>req_identifier = Some ''a@x.com'',
               req_token = Some (JObj [(''toString'', JNum ''1'')])\<rparr>"
  have unseen: "select_customer ''a@x.com'' ''a@x.com'' (customers fresh_db) = None"
    by (simp add: fresh_db_def select_customer_def)
  have secret: "QR_SECRET cfg_sqlite = ''PASTA123''"
    by (simp add: QR_SECRET_def js_or_def truthy_def cfg_sqlite_def)
  have bad: "\<exists>s. req_token add_ax_bad = Some (JStr s) \<and> s \<noteq> QR_SECRET cfg_sqlite"
    by (simp add: add_ax_bad_def secret)
  have joined: "js_String (JArr [JStr ''PASTA'', JNum ''123'']) = Inr ''PASTA,123''"
    by simp
  then have pair: "req_token ?pair = None \<or>
     (\<exists>v. req_token ?pair = Some v \<and>
          (\<not> truthy_json v \<or> (\<exists>s. js_String v = Inr s \<and> s \<noteq> QR_SECRET cfg_sqlite)))"
    by (simp add: secret)
  have zero: "req_token ?zero = None \<or>
     (\<exists>v. req_token ?zero = Some v \<and>
          (\<not> truthy_json v \<or> (\<exists>s. js_String v = Inr s \<and> s \<noteq> QR_SECRET cfg_sqlite)))"
    by simp
  have throws: "js_String (JObj [(''toString'', JNum ''1'')]) = Inl TypeError"
    by simp
  then have obj: "\<exists>v e. req_token ?obj = Some v \<and> truthy_json v \<and> js_String v = Inl e"
    by simp
  note at_bad = invalid_token_changes_nothing [of add_ax_bad cfg_sqlite "clock_at 120000" fresh_db]
  note at_pair = invalid_token_changes_nothing [of ?pair cfg_sqlite "clock_at 120000" fresh_db]
  note at_zero = invalid_token_changes_nothing [of ?zero cfg_sqlite "clock_at 120000" fresh_db]
  note at_obj = invalid_token_changes_nothing [of ?obj cfg_sqlite "clock_at 120000" fresh_db]
  from at_bad bad
  have r1: "stamps_add cfg_sqlite (clock_at 120000) add_ax_bad fresh_db =
              (HttpError 401 ''Unauthorized: invalid token'', fresh_db)"
    by (metis prod.collapse)
  from at_pair pair
  have r2: "stamps_add cfg_sqlite (clock_at 120000) ?pair fresh_db =
              (HttpError 401 ''Unauthorized: invalid token'', fresh_db)"
    by (metis prod.collapse)
  from at_zero zero
  have r3: "stamps_add cfg_sqlite (clock_at 120000) ?zero fresh_db =
              (HttpError 401 ''Unauthorized: invalid token'', fresh_db)"
    by (metis prod.collapse)
  from at_obj obj
  have r4: "stamps_add cfg_sqlite (clock_at 120000) ?obj fresh_db =
              (HttpError 500 ''Stamp add failed'', fresh_db)"
    by (metis prod.collapse)
  from unseen r1 joined r2 r3 throws r4 show ?thesis
    by blast
qed

text \<open>
  Claim C4 as stated fails for a token that is not a string: the token
  \<open>["PASTA123"]\<close> is an array and not the secret \<open>PASTA123\<close>, but \<open>String\<close> turns it
  into the secret, so the request is authorized: on the fresh store it creates the
  customer and stamps the wallet.
\<close>

theorem array_token_accepted_counterexample:
  "req_token add_ax_array \<noteq> Some (JStr (QR_SECRET cfg_sqlite)) \<and>
   select_customer ''a@x.com'' ''a@x.com'' (customers fresh_db) = None \<and>
   fst (stamps_add cfg_sqlite (clock_at 1700000000000) add_ax_array fresh_db) =
     stamp_reply 1 False None \<and>
   map customer.truncate
     (customers (snd (stamps_add cfg_sqlite (clock_at 1700000000000) add_ax_array fresh_db))) =
     [customer_ax] \<and>
   wallets (snd (stamps_add cfg_sqlite (clock_at 1700000000000) add_ax_array fresh_db)) =
     [wallet_ax 1 None (Some 1700000000000)]"
  by code_simp

subsection \<open>C5: signup is idempotent\<close>

text \<open>
  Claim C5. A signup never alters the stamps: on any store it leaves every wallet row
  as it found it, and at most appends the wallet of a customer that had none, with 0
  stamps. When a signup has succeeded, a signup with the same identifier
  (\<open>email || phone\<close>), right after it or after any further calls of the API, returns the
  same customer, hence the same \<open>customerId\<close>, reports the stamps the wallet holds
  at that time, and leaves both tables as it found them; called right after the
  first, it returns the very same body.
\<close>

theorem signup_idempotent:
  "(wallets (snd (signup cfg clk1 req1 d)) = wallets d \<or>
    (\<exists>c. select_wallet c (wallets d) = None \<and>
         wallets (snd (signup cfg clk1 req1 d)) =
           wallets d @ [\<lparr>customer_id = c, stamps = 0, last_redeemed_at = None,
                         last_stamped_at = None\<rparr>])) \<and>
   (signup cfg clk1 req1 d = (SignupJson b, d1) \<and>
    js_or (req_email req2) (req_phone req2) = js_or (req_email req1) (req_phone req1) \<longrightarrow>
      (\<exists>w. select_wallet (cust_id (su_customer b)) (wallets (snd (run cfg calls d1))) = Some w \<and>
           fst (signup cfg clk2 req2 (snd (run cfg calls d1))) =
             SignupJson \<lparr>su_customer = su_customer b, su_stamps = stamps w\<rparr> \<and>
           customers (snd (signup cfg clk2 req2 (snd (run cfg calls d1)))) =
             customers (snd (run cfg calls d1)) \<and>
           wallets (snd (signup cfg clk2 req2 (snd (run cfg calls d1)))) =
             wallets (snd (run cfg calls d1))) \<and>
      fst (signup cfg clk2 req2 d1) = SignupJson b)"
proof -
  have again: "fst (signup cfg clk2 req2 d1) = SignupJson b"
    if first: "signup cfg clk1 req1 d = (SignupJson b, d1)"
      and same: "js_or (req_email req2) (req_phone req2) =
                 js_or (req_email req1) (req_phone req1)"
  proof -
    from signup_later [OF first same, of "[]" clk2] obtain w where
      "select_wallet (cust_id (su_customer b)) (wallets d1) = Some w"
      "fst (signup cfg clk2 req2 d1) = SignupJson \<lparr>su_customer = su_customer b, su_stamps = stamps w\<rparr>"
      by auto
    moreover from signup_resolved_props [OF first]
    have "map_option stamps (select_wallet (cust_id (su_customer b)) (wallets d1)) =
            Some (su_stamps b)"
      by blast
    ultimately show ?thesis
      by simp
  qed
  from signup_keeps_wallets [of cfg clk1 req1 d] signup_later [of cfg clk1 req1 d b d1 req2 calls clk2]
    again
  show ?thesis
    by blast
qed

theorem signup_idempotent_witness:
  "signup cfg_sqlite (clock_at 0) signup_ax fresh_db =
     (SignupJson \<lparr>su_customer = customer_ax, su_stamps = 0\<rparr>,
      snd (signup cfg_sqlite (clock_at 0) signup_ax fresh_db)) \<and>
   wallets (snd (run cfg_sqlite (map add_at [1, 2, 3])
                   (snd (signup cfg_sqlite (clock_at 0) signup_ax fresh_db)))) =
     [wallet_ax 3 None (Some 360000)] \<and>
   fst (signup cfg_sqlite (clock_at 400000)
          \<lparr>req_name = Some ''Bo'', req_email = Some ''a@x.com'', req_phone = Some ''555''\<rparr>
          (snd (run cfg_sqlite (map add_at [1, 2, 3])
                  (snd (signup cfg_sqlite (clock_at 0) signup_ax fresh_db))))) =
     SignupJson \<lparr>su_customer = customer_ax, su_stamps = 3\<rparr> \<and>
   wallets (snd (signup cfg_sqlite (clock_at 400000)
          \<lparr>req_name = Some ''Bo'', req_email = Some ''a@x.com'', req_phone = Some ''555''\<rparr>
          (snd (run cfg_sqlite (map add_at [1, 2, 3])
                  (snd (signup cfg_sqlite (clock_at 0) signup_ax fresh_db)))))) =
     [wallet_ax 3 None (Some 360000)]"
proof -
  let ?req2 = "\<lparr>req_name = Some ''Bo'', req_email = Some ''a@x.com'', req_phone = Some ''555''\<rparr>"
  let ?d1 = "snd (signup cfg_sqlite (clock_at 0) signup_ax fresh_db)"
  let ?d2 = "snd (run cfg_sqlite (map add_at [1, 2, 3]) ?d1)"
  have "fst (signup cfg_sqlite (clock_at 0) signup_ax fresh_db) =
          SignupJson \<lparr>su_customer = customer_ax, su_stamps = 0\<rparr>"
    by code_simp
  then have first: "signup cfg_sqlite (clock_at 0) signup_ax fresh_db =
                    (SignupJson \<lparr>su_customer = customer_ax, su_stamps = 0\<rparr>, ?d1)"
    by (cases "signup cfg_sqlite (clock_at 0) signup_ax fresh_db") simp
  have same: "js_or (req_email ?req2) (req_phone ?req2) =
              js_or (req_email signup_ax) (req_phone signup_ax)"
    by (simp add: js_or_def truthy_def signup_ax_def)
  have stamped: "wallets ?d2 = [wallet_ax 3 None (Some 360000)]"
    by code_simp
  from signup_idempotent [of cfg_sqlite "clock_at 0" signup_ax fresh_db
      "\<lparr>su_customer = customer_ax, su_stamps = 0\<rparr>" ?d1 ?req2 "map add_at [1, 2, 3]"
      "clock_at 400000"] first same
  obtain w where
    w: "select_wallet (cust_id customer_ax) (wallets ?d2) = Some w" and
    r: "fst (signup cfg_sqlite (clock_at 400000) ?req2 ?d2) =
          SignupJson \<lparr>su_customer = customer_ax, su_stamps = stamps w\<rparr>" and
    k: "wallets (snd (signup cfg_sqlite (clock_at 400000) ?req2 ?d2)) = wallets ?d2"
    by auto
  from w have "select_wallet (cust_id customer_ax) [wallet_ax 3 None (Some 360000)] = Some w"
    by (simp only: stamped)
  then have "stamps w = 3"
    by (auto simp: select_wallet_def wallet_ax_def customer_ax_def split: if_splits)
  with r have r': "fst (signup cfg_sqlite (clock_at 400000) ?req2 ?d2) =
          SignupJson \<lparr>su_customer = customer_ax, su_stamps = 3\<rparr>"
    by (simp only:)
  from k have k': "wallets (snd (signup cfg_sqlite (clock_at 400000) ?req2 ?d2)) =
          [wallet_ax 3 None (Some 360000)]"
    by (simp only: stamped)
  from first stamped r' k' show ?thesis
    by blast
qed

subsection \<open>C6: the scenario of a fresh customer\<close>

text \<open>
  Claim C6, as amended. With the token of the scenario valid, under either backend and
  for any readings of the clock that leave the cooldown elapsed before each stamp-add:
  from the fresh store the signup of \<open>a@x.com\<close> returns 0 stamps; ten stamp-adds
  return the counts 1 to 10 with \<open>redeemed\<close> false, the tenth alone carrying the reward
  message; the eleventh returns 0 stamps with \<open>redeemed\<close> true.
\<close>

theorem scenario_eleven_stamps:
  assumes secret: "QR_SECRET cfg = ''PASTA123''"
    and gaps: "spaced 0 [k1, k2, k3, k4, k5, k6, k7, k8, k9, k10, k11]"
  shows "fst (run cfg
           (Signup k0 signup_ax #
            map (\<lambda>k. StampsAdd k add_ax) [k1, k2, k3, k4, k5, k6, k7, k8, k9, k10, k11])
           fresh_db) =
     [SignupJson \<lparr>su_customer = customer_ax, su_stamps = 0\<rparr>,
      stamp_reply 1 False None, stamp_reply 2 False None, stamp_reply 3 False None,
      stamp_reply 4 False None, stamp_reply 5 False None, stamp_reply 6 False None,
      stamp_reply 7 False None, stamp_reply 8 False None, stamp_reply 9 False None,
      stamp_reply 10 False (Some rewardText),
      stamp_reply 0 True None]"
proof -
  let ?d = "snd (signup cfg k0 signup_ax fresh_db)"
  let ?ks = "[k1, k2, k3, k4, k5, k6, k7, k8, k9, k10, k11]"
  note su = signup_ax_fresh [of cfg k0]
  from su have cs: "map customer.truncate (customers ?d) = [customer_ax]"
    and ws: "wallets ?d = [wallet_ax 0 None None]"
    by simp_all
  from gaps have "spaced (case None of Some t \<Rightarrow> t | None \<Rightarrow> 0) ?ks"
    by simp
  from adds_replies [OF secret cs ws this]
  have "fst (run cfg (map (\<lambda>k. StampsAdd k add_ax) ?ks) ?d) = stamp_replies 0 ?ks" .
  also have "stamp_replies 0 ?ks =
     [stamp_reply 1 False None, stamp_reply 2 False None, stamp_reply 3 False None,
      stamp_reply 4 False None, stamp_reply 5 False None, stamp_reply 6 False None,
      stamp_reply 7 False None, stamp_reply 8 False None, stamp_reply 9 False None,
      stamp_reply 10 False (Some rewardText),
      stamp_reply 0 True None]"
    by simp
  finally show ?thesis
    using su by (simp only: run_fst_Cons api_step.simps)
qed

theorem scenario_eleven_stamps_witness:
  "QR_SECRET cfg_sqlite = ''PASTA123'' \<and> QR_SECRET cfg_turso = ''PASTA123'' \<and>
   spaced 0 (map (\<lambda>n. clock_at (int n * 120000)) [1..<12]) \<and>
   fst (run cfg_sqlite (scenario 11) fresh_db) =
     [SignupJson \<lparr>su_customer = customer_ax, su_stamps = 0\<rparr>,
      stamp_reply 1 False None, stamp_reply 2 False None, stamp_reply 3 False None,
      stamp_reply 4 False None, stamp_reply 5 False None, stamp_reply 6 False None,
      stamp_reply 7 False None, stamp_reply 8 False None, stamp_reply 9 False None,
      stamp_reply 10 False (Some rewardText),
      stamp_reply 0 True None] \<and>
   fst (run cfg_turso (scenario 11) fresh_db) = fst (run cfg_sqlite (scenario 11) fresh_db)"
proof -
  have secret: "QR_SECRET cfg_sqlite = ''PASTA123''" "QR_SECRET cfg_turso = ''PASTA123''"
    by (simp_all add: QR_SECRET_def js_or_def truthy_def cfg_sqlite_def cfg_turso_def)
  have ks: "map (\<lambda>n. clock_at (int n * 120000)) [1..<12] =
            [clock_at 120000, clock_at 240000, clock_at 360000, clock_at 480000, clock_at 600000,
             clock_at 720000, clock_at 840000, clock_at 960000, clock_at 1080000,
             clock_at 1200000, clock_at 1320000]"
    by code_simp
  have gaps: "spaced 0 [clock_at 120000, clock_at 240000, clock_at 360000, clock_at 480000,
             clock_at 600000, clock_at 720000, clock_at 840000, clock_at 960000,
             clock_at 1080000, clock_at 1200000, clock_at 1320000]"
    by (simp add: COOLDOWN_MS_def clock_at_def)
  have sc: "scenario 11 = Signup (clock_at 0) signup_ax #
            map (\<lambda>k. StampsAdd k add_ax)
              [clock_at 120000, clock_at 240000, clock_at 360000, clock_at 480000,
               clock_at 600000, clock_at 720000, clock_at 840000, clock_at 960000,
               clock_at 1080000, clock_at 1200000, clock_at 1320000]"
    by code_simp
  from scenario_eleven_stamps [OF secret(1) gaps, of "clock_at 0"]
    scenario_eleven_stamps [OF secret(2) gaps, of "clock_at 0"]
  show ?thesis
    using secret gaps by (simp only: sc ks)
qed

text \<open>
  Claim C6 as stated fails on the ninth and the tenth stamp-add: the ninth returns 9
  stamps without a reward message, and the tenth returns 10 stamps with the reward
  message and \<open>redeemed\<close> false, not 0 stamps with \<open>redeemed\<close> true.
\<close>

theorem scenario_ninth_and_tenth_counterexample:
  "fst (run cfg_sqlite (scenario 10) fresh_db) ! 9 = stamp_reply 9 False None \<and>
   fst (run cfg_sqlite (scenario 10) fresh_db) ! 10 = stamp_reply 10 False (Some rewardText)"
  by code_simp

subsection \<open>C7: a stamp-add for an unknown identifier\<close>

text \<open>
  Claim C7. Take a well-formed store (every store reachable from the fresh one is
  well-formed: \<open>reachable_db_wf\<close>) and an authorized stamp-add whose identifier \<open>x\<close>
  matches no customer. Lines 449 to 465 then insert a customer whose id is \<open>x\<close>, with
  \<open>x\<close> in the email column when it contains \<open>@\<close> and in the phone column otherwise,
  and insert the wallet row of \<open>x\<close> with 0 stamps and no timestamps; the cooldown
  check and the stamp transition run on that wallet, in the store that holds both rows.
\<close>

theorem stamp_add_creates_customer:
  assumes wf: "db_wf d"
    and auth: "isValidStaticToken cfg (req_token req) = Inr True"
    and ident: "req_identifier req = Some x" "x \<noteq> []"
    and unseen: "select_customer x x (customers d) = None"
  shows "\<exists>c w d1 d2.
           c = \<lparr>cust_id = x, cust_name = None,
                cust_email = (if CHR ''@'' \<in> set x then Some x else None),
                cust_phone = (if CHR ''@'' \<in> set x then None else Some x)\<rparr> \<and>
           w = \<lparr>customer_id = x, stamps = 0, last_redeemed_at = None, last_stamped_at = None\<rparr> \<and>
           stamps_add_customer (useTurso cfg) clk x d = (Inr c, d1) \<and>
           customers d1 = customers d @ [customer.extend c \<lparr>created_at = created_now clk\<rparr>] \<and>
           ensure_wallet (useTurso cfg) c d1 = (Inr w, d2) \<and>
           customers d2 = customers d1 \<and>
           wallets d2 = wallets d @ [w] \<and>
           stamps_add cfg clk req d = stamps_add_award (useTurso cfg) clk c w d2"
proof -
  let ?e = "if CHR ''@'' \<in> set x then Some x else None"
  let ?p = "if CHR ''@'' \<in> set x then None else Some x"
  let ?c = "\<lparr>cust_id = x, cust_name = None, cust_email = ?e, cust_phone = ?p\<rparr>"
  let ?w = "\<lparr>customer_id = x, stamps = 0, last_redeemed_at = None, last_stamped_at = None\<rparr>"
  let ?d1 = "d\<lparr>customers := customers d @
                 [\<lparr>cust_id = x, cust_name = None, cust_email = ?e, cust_phone = ?p,
                   created_at = created_now clk\<rparr>],
               issued := issued d @ [SelectCustomer x x,
                   InsertCustomer x None ?e ?p (created_now clk), SelectCustomer x x]\<rparr>"
  let ?d2 = "?d1\<lparr>wallets := wallets ?d1 @ [?w],
                  issued := issued ?d1 @ [SelectWallet x, InsertWallet x]\<rparr>"
  from unseen_no_conflict [OF wf unseen]
  have free: "\<not> customer_conflict sqlite_schema x ?e ?p (customers d)"
    and nowallet: "select_wallet x (wallets d) = None"
    by (auto simp: customer_conflict_eq list_ex_iff)
  from unseen free
  have cust: "stamps_add_customer (useTurso cfg) clk x d = (Inr ?c, ?d1)"
    by (simp add: stamps_add_customer_eq Let_def)
  from nowallet
  have wal: "ensure_wallet (useTurso cfg) ?c ?d1 = (Inr ?w, ?d2)"
    by (simp add: ensure_wallet_cases)
  have run: "stamps_add cfg clk req d = stamps_add_award (useTurso cfg) clk ?c ?w ?d2"
    using auth ident cust wal by (rule stamps_add_resolved)
  have rows: "customers ?d1 = customers d @ [customer.extend ?c \<lparr>created_at = created_now clk\<rparr>]"
    by (simp add: customer.extend_def customers_row.defs)
  have "customers ?d2 = customers ?d1" "wallets ?d2 = wallets d @ [?w]"
    by simp_all
  with cust wal run rows show ?thesis
    by blast
qed


theorem stamp_add_creates_customer_witness:
  "db_wf (db_ax 3 None None) \<and>
   select_customer ''555'' ''555'' (customers (db_ax 3 None None)) = None \<and>
   fst (stamps_add cfg_sqlite (clock_at 120000)
          \<lparr>req_identifier = Some ''555'', req_token = Some (JStr ''PASTA123'')\<rparr> (db_ax 3 None None)) =
     StampJson \<lparr>st_customerId = ''555'', st_stamps = 1, st_redeemed = False,
                st_rewardMessage = None\<rparr> \<and>
   wallets (snd (stamps_add cfg_sqlite (clock_at 120000)
          \<lparr>req_identifier = Some ''555'', req_token = Some (JStr ''PASTA123'')\<rparr> (db_ax 3 None None))) =
     [wallet_ax 3 None None,
      \<lparr>customer_id = ''555'', stamps = 1, last_redeemed_at = None,
       last_stamped_at = Some 120000\<rparr>]"
proof -
  let ?req = "\<lparr>req_identifier = Some ''555'', req_token = Some (JStr ''PASTA123'')\<rparr>"
  have wf: "db_wf (db_ax 3 None None)"
    by (simp add: db_wf_def id_is_identifier_def db_ax_def wallet_ax_def)
  have auth: "isValidStaticToken cfg_sqlite (req_token ?req) = Inr True"
    by (simp add: token_defs cfg_sqlite_def)
  have ident: "req_identifier ?req = Some ''555''" "''555'' \<noteq> []"
    by simp_all
  have unseen: "select_customer ''555'' ''555'' (customers (db_ax 3 None None)) = None"
    by (simp add: select_customer_def db_ax_def)
  from stamp_add_creates_customer [OF wf auth ident unseen, of "clock_at 120000"]
  obtain d2 where
    run: "stamps_add cfg_sqlite (clock_at 120000) ?req (db_ax 3 None None) =
          stamps_add_award (useTurso cfg_sqlite) (clock_at 120000)
            \<lparr>cust_id = ''555'', cust_name = None, cust_email = None, cust_phone = Some ''555''\<rparr>
            \<lparr>customer_id = ''555'', stamps = 0, last_redeemed_at = None, last_stamped_at = None\<rparr>
            d2"
    and ws: "wallets d2 = wallets (db_ax 3 None None) @
               [\<lparr>customer_id = ''555'', stamps = 0, last_redeemed_at = None,
                 last_stamped_at = None\<rparr>]"
    by auto
  have "fst (stamps_add cfg_sqlite (clock_at 120000) ?req (db_ax 3 None None)) =
     StampJson \<lparr>st_customerId = ''555'', st_stamps = 1, st_redeemed = False,
                st_rewardMessage = None\<rparr>"
    unfolding run by (simp add: stamps_add_award_eq last_ms_def COOLDOWN_MS_def clock_at_def)
  moreover
  have "wallets (snd (stamps_add cfg_sqlite (clock_at 120000) ?req (db_ax 3 None None))) =
     [wallet_ax 3 None None,
      \<lparr>customer_id = ''555'', stamps = 1, last_redeemed_at = None,
       last_stamped_at = Some 120000\<rparr>]"
    unfolding run
    by (simp add: stamps_add_award_eq last_ms_def COOLDOWN_MS_def clock_at_def ws
        db_ax_def wallet_ax_def update_row_def)
  ultimately show ?thesis
    using wf unseen by blast
qed

subsection \<open>C8: the timestamps a write sets\<close>

text \<open>
  Claim C8. On each branch of a stamp-add that writes the wallet (the cooldown has
  elapsed), the stored wallet \<open>w\<close> becomes \<open>w'\<close> with \<open>last_stamped_at\<close> set to the
  reading of the clock taken for it. On the two accrual branches (fewer than 10 stamps)
  \<open>last_redeemed_at\<close> keeps the value it had; on the redemption branch it is set to
  the reading of the clock taken for it.
\<close>

theorem stamp_write_timestamps:
  assumes auth: "isValidStaticToken cfg (req_token req) = Inr True"
    and ident: "req_identifier req = Some x" "x \<noteq> []"
    and cust: "stamps_add_customer (useTurso cfg) clk x d = (Inr c, d1)"
    and wal: "ensure_wallet (useTurso cfg) c d1 = (Inr w, d2)"
    and elapsed: "COOLDOWN_MS \<le> Date_now clk - last_ms w"
  shows "\<exists>w'. select_wallet (cust_id c) (wallets d2) = Some w \<and>
              select_wallet (cust_id c) (wallets (snd (stamps_add cfg clk req d))) = Some w' \<and>
              last_stamped_at w' = Some (stamped_now clk) \<and>
              (stamps w < 10 \<longrightarrow> last_redeemed_at w' = last_redeemed_at w) \<and>
              (10 \<le> stamps w \<longrightarrow> last_redeemed_at w' = Some (redeemed_now clk))"
proof -
  from ensure_wallet_props [OF wal]
  have stored: "select_wallet (cust_id c) (wallets d2) = Some w"
    by simp
  have run: "stamps_add cfg clk req d = stamps_add_award (useTurso cfg) clk c w d2"
    using auth ident cust wal by (rule stamps_add_resolved)
  show ?thesis
  proof (cases "stamps w < 10")
    case True
    with elapsed stored show ?thesis
      by (simp add: run stamps_add_award_eq select_wallet_update)
  next
    case False
    with elapsed stored show ?thesis
      by (simp add: run stamps_add_award_eq select_wallet_update)
  qed
qed

theorem stamp_write_timestamps_witness:
  "map_option last_stamped_at
     (select_wallet ''a@x.com''
        (wallets (snd (stamps_add cfg_turso
           \<lparr>created_now = 119999, Date_now = 120000, redeemed_now = 120001, stamped_now = 120002\<rparr>
           add_ax (db_ax 10 (Some 5) (Some 0)))))) = Some (Some 120002) \<and>
   map_option last_redeemed_at
     (select_wallet ''a@x.com''
        (wallets (snd (stamps_add cfg_turso
           \<lparr>created_now = 119999, Date_now = 120000, redeemed_now = 120001, stamped_now = 120002\<rparr>
           add_ax (db_ax 10 (Some 5) (Some 0)))))) = Some (Some 120001) \<and>
   map_option last_redeemed_at
     (select_wallet ''a@x.com''
        (wallets (snd (stamps_add cfg_turso
           \<lparr>created_now = 119999, Date_now = 120000, redeemed_now = 120001, stamped_now = 120002\<rparr>
           add_ax (db_ax 3 (Some 5) (Some 0)))))) = Some (Some 5)"
proof -
  let ?clk = "\<lparr>created_now = 119999, Date_now = 120000, redeemed_now = 120001,
               stamped_now = 120002\<rparr>"
  have elapsed: "COOLDOWN_MS \<le> Date_now ?clk - last_ms (wallet_ax n (Some 5) (Some 0))" for n
    by (simp add: COOLDOWN_MS_def last_ms_def wallet_ax_def)
  from stamp_write_timestamps [OF add_ax_valid(2) add_ax_ident db_ax_customer db_ax_wallet elapsed,
      of 10]
    stamp_write_timestamps [OF add_ax_valid(2) add_ax_ident db_ax_customer db_ax_wallet elapsed,
      of 3]
  show ?thesis
    by (auto simp: wallet_ax_def customer_ax_def)
qed

subsection \<open>C9: the two backends\<close>




subsection \<open>C10: authorization comes first\<close>



end
